theory Spec2Isabelle
  imports Main "HOL-Library.Sublist"
begin

section \<open>The Telegram channel scraper (src/scraper.py)\<close>

text \<open>
  A shallow embedding of class \<open>TelegramScraper\<close>: the channel limit registry
  (\<open>_load_channel_limits\<close>, \<open>get_max_images_for_channel\<close>,
  \<open>get_config_channel_name\<close>), the message extractor, the media downloader, the
  per-channel iteration of \<open>scrape_channel\<close> and the partitioned writer
  \<open>save_messages_to_json\<close> with its caller \<open>scrape_multiple_channels\<close>.

  Python strings are modelled as \<open>string\<close>. The functions \<open>str.lower\<close> and
  \<open>str.isalnum\<close> are modelled on the ASCII range, where they agree with Python;
  a character outside it is left alone by \<open>lower\<close> and is not alphanumeric.
\<close>

subsection \<open>Strings\<close>

definition ascii_uppercase :: string where
  "ascii_uppercase = ''ABCDEFGHIJKLMNOPQRSTUVWXYZ''"

definition ascii_lowercase :: string where
  "ascii_lowercase = ''abcdefghijklmnopqrstuvwxyz''"

definition digits :: string where
  "digits = ''0123456789''"

definition lower_char :: "char \<Rightarrow> char" where
  "lower_char c = (case map_of (zip ascii_uppercase ascii_lowercase) c of
                     Some d \<Rightarrow> d | None \<Rightarrow> c)"

text \<open>\<open>s.lower()\<close>\<close>

definition lower :: "string \<Rightarrow> string" where
  "lower s = map lower_char s"

text \<open>\<open>s.replace(c, '')\<close> for a single character \<open>c\<close>\<close>

definition remove_char :: "char \<Rightarrow> string \<Rightarrow> string" where
  "remove_char c s = filter (\<lambda>x. x \<noteq> c) s"

text \<open>\<open>pattern in s\<close> on strings: \<open>pattern\<close> occurs in \<open>s\<close> as a contiguous run\<close>

fun starts_with :: "string \<Rightarrow> string \<Rightarrow> bool" where
  "starts_with [] s = True"
| "starts_with (p # ps) [] = False"
| "starts_with (p # ps) (c # cs) = (p = c \<and> starts_with ps cs)"

fun contains :: "string \<Rightarrow> string \<Rightarrow> bool" where
  "contains pattern [] = (pattern = [])"
| "contains pattern (c # cs) = (starts_with pattern (c # cs) \<or> contains pattern cs)"

text \<open>\<open>c.isalnum()\<close>\<close>

definition isalnum :: "char \<Rightarrow> bool" where
  "isalnum c \<longleftrightarrow> c \<in> set ascii_uppercase \<or> c \<in> set ascii_lowercase \<or> c \<in> set digits"

text \<open>\<open>s.strip()\<close> on a string whose only whitespace is the space character\<close>

definition strip :: "string \<Rightarrow> string" where
  "strip s = rev (dropWhile (\<lambda>c. c = CHR '' '') (rev (dropWhile (\<lambda>c. c = CHR '' '') s)))"

text \<open>\<open>str(n)\<close> for an integer\<close>

function str_nat :: "nat \<Rightarrow> string" where
  "str_nat n = (if n < 10 then [digits ! n] else str_nat (n div 10) @ [digits ! (n mod 10)])"
  by pat_completeness auto
termination
  by (relation "measure id") auto

declare str_nat.simps [simp del]

definition str_int :: "int \<Rightarrow> string" where
  "str_int i = (if i < 0 then CHR ''-'' # str_nat (nat (- i)) else str_nat (nat i))"

subsection \<open>Channel limit registry\<close>

text \<open>
  \<open>self.channel_max_images\<close> is a Python dict: an association list in insertion
  order. \<open>d[k]\<close> raises \<open>KeyError\<close> on a missing key.
\<close>

datatype py_error = KeyError

type_synonym limits = "(string \<times> int) list"

definition has_key :: "limits \<Rightarrow> string \<Rightarrow> bool" where
  "has_key d k \<longleftrightarrow> map_of d k \<noteq> None"

definition dict_get :: "limits \<Rightarrow> string \<Rightarrow> py_error + int" where
  "dict_get d k = (case map_of d k of None \<Rightarrow> Inl KeyError | Some v \<Rightarrow> Inr v)"

text \<open>
  \<open>_load_channel_limits\<close>. The environment is a map from variable names to strings;
  \<open>int(limit)\<close> is Python's built-in, taken as the parameter \<open>parse\<close>
  (\<open>None\<close> where it raises \<open>ValueError\<close>). \<open>dflt\<close> is the module constant
  \<open>DEFAULT_MAX_IMAGES\<close>. The warning logged for a value that does not parse is
  not modelled: the function runs in \<open>__init__\<close>, before there is a state.
\<close>

definition known_channel_names :: "string list" where
  "known_channel_names = [''CheMed123'', ''lobelia4cosmetics'', ''tikvahpharma'']"

definition load_limit :: "(string \<Rightarrow> int option) \<Rightarrow> (string \<Rightarrow> string option) \<Rightarrow> int \<Rightarrow> string \<Rightarrow> int" where
  "load_limit parse env dflt channel =
     (case env (''MAX_IMAGES_'' @ channel) of
        None \<Rightarrow> dflt
      | Some limit \<Rightarrow>
          if limit = [] then dflt
          else (case parse limit of Some n \<Rightarrow> n | None \<Rightarrow> dflt))"

definition load_channel_limits :: "(string \<Rightarrow> int option) \<Rightarrow> (string \<Rightarrow> string option) \<Rightarrow> int \<Rightarrow> limits" where
  "load_channel_limits parse env dflt =
     map (\<lambda>channel. (channel, load_limit parse env dflt channel)) known_channel_names"

text \<open>The normalisation on the first line of both lookup functions.\<close>

definition normalize_name :: "string \<Rightarrow> string" where
  "normalize_name channel_name =
     remove_char CHR ''-'' (remove_char CHR ''_'' (remove_char CHR '' '' (lower channel_name)))"

definition channel_mappings :: "(string \<times> string) list" where
  "channel_mappings =
     [(''lobelia'', ''lobelia4cosmetics''), (''chemed'', ''CheMed123''), (''tikvah'', ''tikvahpharma'')]"

text \<open>\<open>get_max_images_for_channel\<close>: the case-insensitive loop over \<open>items()\<close>\<close>

fun max_images_ci :: "limits \<Rightarrow> string \<Rightarrow> int option" where
  "max_images_ci [] channel_name = None"
| "max_images_ci ((key, v) # rest) channel_name =
     (if lower key = lower channel_name then Some v else max_images_ci rest channel_name)"

text \<open>the loop over \<open>channel_mappings.items()\<close>\<close>

fun max_images_pattern :: "limits \<Rightarrow> string \<Rightarrow> (string \<times> string) list \<Rightarrow> (py_error + int) option" where
  "max_images_pattern d normalized_name [] = None"
| "max_images_pattern d normalized_name ((pattern, config_name) # rest) =
     (if contains pattern normalized_name \<and> has_key d config_name
      then Some (dict_get d config_name)
      else max_images_pattern d normalized_name rest)"

definition get_max_images_for_channel :: "limits \<Rightarrow> int \<Rightarrow> string \<Rightarrow> py_error + int" where
  "get_max_images_for_channel d dflt channel_name =
     (let normalized_name = normalize_name channel_name in
      if has_key d channel_name then dict_get d channel_name
      else (case max_images_ci d channel_name of
              Some v \<Rightarrow> Inr v
            | None \<Rightarrow>
                (case max_images_pattern d normalized_name channel_mappings of
                   Some r \<Rightarrow> r
                 | None \<Rightarrow> Inr dflt)))"

text \<open>\<open>get_config_channel_name\<close>\<close>

fun config_name_ci :: "limits \<Rightarrow> string \<Rightarrow> string option" where
  "config_name_ci [] channel_name = None"
| "config_name_ci ((key, v) # rest) channel_name =
     (if lower key = lower channel_name then Some key else config_name_ci rest channel_name)"

fun config_name_pattern :: "string \<Rightarrow> (string \<times> string) list \<Rightarrow> string option" where
  "config_name_pattern normalized_name [] = None"
| "config_name_pattern normalized_name ((pattern, config_name) # rest) =
     (if contains pattern normalized_name then Some config_name
      else config_name_pattern normalized_name rest)"

definition get_config_channel_name :: "limits \<Rightarrow> string \<Rightarrow> string" where
  "get_config_channel_name d channel_name =
     (let normalized_name = normalize_name channel_name in
      if has_key d channel_name then channel_name
      else (case config_name_ci d channel_name of
              Some key \<Rightarrow> key
            | None \<Rightarrow>
                (case config_name_pattern normalized_name channel_mappings of
                   Some config_name \<Rightarrow> config_name
                 | None \<Rightarrow> channel_name)))"

text \<open>
  The registry as section 4.1 of the specification words it: the quota of the first of
  exact match, case-insensitive match and known-substring match that yields one, and the
  default otherwise.
\<close>

definition fuzzy_quotas :: "limits \<Rightarrow> string \<Rightarrow> int list" where
  "fuzzy_quotas d channel_name =
     List.map_filter
       (\<lambda>(substring, key). if sublist (normalize_name substring) (normalize_name channel_name)
                            then map_of d key else None)
       channel_mappings"

definition resolve_quota_spec :: "limits \<Rightarrow> int \<Rightarrow> string \<Rightarrow> int" where
  "resolve_quota_spec d dflt channel_name =
     (case map_of d channel_name of
        Some q \<Rightarrow> q
      | None \<Rightarrow>
          (case find (\<lambda>(key, q). lower key = lower channel_name) d of
             Some (key, q) \<Rightarrow> q
           | None \<Rightarrow>
               (case fuzzy_quotas d channel_name of
                  q # _ \<Rightarrow> q
                | [] \<Rightarrow> dflt)))"

subsection \<open>Messages, dates and the provider\<close>

text \<open>
  A \<open>datetime\<close> value and the date text \<open>strftime("%Y-%m-%d")\<close> renders from it.
  The text \<open>YYYY-MM-DD\<close> is represented by the triple of numbers it shows; an ISO
  string produced by \<open>isoformat()\<close> is represented by the \<open>datetime\<close> that
  \<open>fromisoformat\<close> reads back from it. Every call of \<open>datetime.now()\<close> reads
  the parameter \<open>now\<close>.
\<close>

record datetime =
  year :: int
  month :: int
  day :: int
  seconds_of_day :: int

type_synonym date_str = "int \<times> int \<times> int"

definition strftime_ymd :: "datetime \<Rightarrow> date_str" where
  "strftime_ymd d = (year d, month d, day d)"

definition strptime_ymd :: "date_str \<Rightarrow> datetime" where
  "strptime_ymd ds = (case ds of (y, m, d) \<Rightarrow> \<lparr>year = y, month = m, day = d, seconds_of_day = 0\<rparr>)"

text \<open>The fields of a Telethon \<open>Message\<close> that the scraper reads.\<close>

datatype media = NoMedia | MessageMediaPhoto | OtherMedia

record raw_message =
  raw_id :: int
  raw_date :: "datetime option"
  raw_text :: "string option"
  raw_media :: media
  raw_views :: "int option"
  raw_forwards :: "int option"
  raw_is_reply :: bool
  raw_reply_to_msg_id :: "int option"

text \<open>
  The dictionary built by \<open>extract_message_data\<close>, one field per key. Every record
  carries \<open>message_id\<close>, so \<open>msg.get('message_id')\<close> is the field.
\<close>

record message =
  message_id :: int
  channel_name :: string
  message_date :: "datetime option"
  message_text :: string
  has_media :: bool
  image_path :: "string option"
  views :: int
  forwards :: int
  is_reply :: bool
  reply_to_msg_id :: "int option"
  scraped_at :: datetime

text \<open>
  The provider. An exception is a value; \<open>iter_messages\<close> is the finite sequence of
  what the asynchronous iterator does when asked for the next message: it yields one, or
  the request behind it raises. \<open>download_media\<close> writes the file or raises.
\<close>

datatype exn =
    FloodWaitError int
  | UsernameNotOccupiedError
  | ChannelPrivateError
  | OtherError

datatype iter_event = Yield raw_message | Raise exn

record entity =
  title :: "string option"
  username :: string

record client =
  get_entity :: "string \<Rightarrow> exn + entity"
  iter_messages :: "entity \<Rightarrow> int option \<Rightarrow> datetime option \<Rightarrow> iter_event list"
  download_media :: "raw_message \<Rightarrow> exn option"

subsection \<open>The scraper's state and its surroundings\<close>

text \<open>
  Only the WARNING and ERROR records of the logger are modelled; INFO and DEBUG records
  are left out.
\<close>

datatype log_record =
    NoMessagesToSave string
  | CouldNotReadExistingFile "date_str \<times> string"
  | MaximumLimitReached string int
  | LimitAlreadyReached string int int
  | LimitReachedInSession string int int
  | ErrorDownloadingImage int
  | ClientNotConnected
  | ChannelDoesNotExist string
  | ChannelIsPrivate string
  | RateLimited int
  | ErrorProcessingMessage int
  | ErrorScrapingChannel string

text \<open>What \<open>asyncio.sleep\<close> was called with: 0.5, the seconds of a flood wait, or 2.\<close>

datatype pause = PacingDelay | FloodPause int | ChannelDelay

text \<open>The content of a partition file: text that \<open>json.load\<close> rejects, or an array of records.\<close>

datatype file_content = Undecodable | Json "message list"

text \<open>
  The fields of the \<open>TelegramScraper\<close> object, the constant \<open>DEFAULT_MAX_IMAGES\<close>,
  and what the scraper acts on: the image directories under \<open>data/raw/images\<close> (the
  file names in the directory of each channel name), the partition files under
  \<open>data/raw/telegram_messages\<close> (by date text and file stem), the log, the calls of
  \<open>download_media\<close> (by message id) and the calls of \<open>asyncio.sleep\<close>.
\<close>

record scraper =
  channel_max_images :: limits
  default_max_images :: int
  downloaded_images_count :: "string \<rightharpoonup> int"
  channel_limit_reached :: "string set"
  scraped_channels :: "string set"
  scraped_dates :: "date_str set"
  image_dirs :: "string \<rightharpoonup> string list"
  partitions :: "(date_str \<times> string) \<rightharpoonup> file_content"
  log_records :: "log_record list"
  media_requests :: "int list"
  sleeps :: "pause list"

definition logged :: "log_record \<Rightarrow> scraper \<Rightarrow> scraper" where
  "logged r s = s\<lparr>log_records := log_records s @ [r]\<rparr>"

definition sleep :: "pause \<Rightarrow> scraper \<Rightarrow> scraper" where
  "sleep p s = s\<lparr>sleeps := sleeps s @ [p]\<rparr>"

text \<open>\<open>self.downloaded_images_count[k]\<close> where the key has been initialised\<close>

definition count_of :: "scraper \<Rightarrow> string \<Rightarrow> int" where
  "count_of s k = (case downloaded_images_count s k of Some c \<Rightarrow> c | None \<Rightarrow> 0)"

subsection \<open>Message extractor\<close>

definition image_file_name :: "int \<Rightarrow> string" where
  "image_file_name mid = str_int mid @ ''.jpg''"

text \<open>
  \<open>extract_message_data\<close>. A \<open>raw_message\<close> always has its id, and no field access
  raises, so the result is a record.
\<close>

definition extract_message_data :: "datetime \<Rightarrow> raw_message \<Rightarrow> string \<Rightarrow> message option" where
  "extract_message_data now msg chan =
     Some \<lparr>message_id = raw_id msg,
           channel_name = chan,
           message_date = raw_date msg,
           message_text = (case raw_text msg of Some t \<Rightarrow> t | None \<Rightarrow> []),
           has_media = (raw_media msg \<noteq> NoMedia),
           image_path = (if raw_media msg = MessageMediaPhoto
                         then Some (''data/raw/images/'' @ chan @ ''/'' @ image_file_name (raw_id msg))
                         else None),
           views = (case raw_views msg of Some v \<Rightarrow> v | None \<Rightarrow> 0),
           forwards = (case raw_forwards msg of Some v \<Rightarrow> v | None \<Rightarrow> 0),
           is_reply = raw_is_reply msg,
           reply_to_msg_id = (if raw_is_reply msg then raw_reply_to_msg_id msg else None),
           scraped_at = now\<rparr>"

subsection \<open>Media downloader\<close>

definition file_exists :: "scraper \<Rightarrow> string \<Rightarrow> string \<Rightarrow> bool" where
  "file_exists s chan name = (case image_dirs s chan of None \<Rightarrow> False | Some names \<Rightarrow> name \<in> set names)"

text \<open>\<open>image_dir.mkdir(parents=True, exist_ok=True)\<close>\<close>

definition mkdir :: "string \<Rightarrow> scraper \<Rightarrow> scraper" where
  "mkdir chan s = (case image_dirs s chan of
                     None \<Rightarrow> s\<lparr>image_dirs := (image_dirs s)(chan \<mapsto> [])\<rparr>
                   | Some names \<Rightarrow> s)"

definition write_file :: "string \<Rightarrow> string \<Rightarrow> scraper \<Rightarrow> scraper" where
  "write_file chan name s =
     (case image_dirs s chan of
        None \<Rightarrow> s\<lparr>image_dirs := (image_dirs s)(chan \<mapsto> [name])\<rparr>
      | Some names \<Rightarrow>
          if name \<in> set names then s
          else s\<lparr>image_dirs := (image_dirs s)(chan \<mapsto> names @ [name])\<rparr>)"

text \<open>
  \<open>download_image\<close>. Whatever is raised inside is caught by the function's own
  \<open>except Exception\<close>, logged, and turned into \<open>False\<close>; with \<open>self.client\<close>
  unset, the call of \<open>download_media\<close> raises.
\<close>

definition download_image :: "client option \<Rightarrow> raw_message \<Rightarrow> string \<Rightarrow> int \<Rightarrow> scraper \<Rightarrow> bool \<times> scraper" where
  "download_image cl msg chan mid s =
     (if raw_media msg \<noteq> MessageMediaPhoto then (False, s)
      else
        let config_channel = get_config_channel_name (channel_max_images s) chan in
        case get_max_images_for_channel (channel_max_images s) (default_max_images s) chan of
          Inl e \<Rightarrow> (False, logged (ErrorDownloadingImage mid) s)
        | Inr max_images \<Rightarrow>
            let s1 = (if downloaded_images_count s config_channel = None
                      then s\<lparr>downloaded_images_count := (downloaded_images_count s)(config_channel \<mapsto> 0)\<rparr>
                      else s)
            in
            if count_of s1 config_channel \<ge> max_images then
              (False,
               if config_channel \<notin> channel_limit_reached s1
               then (logged (MaximumLimitReached chan max_images) s1)
                      \<lparr>channel_limit_reached := insert config_channel (channel_limit_reached s1)\<rparr>
               else s1)
            else
              let s2 = mkdir chan s1 in
              if \<not> file_exists s2 chan (image_file_name mid) then
                (case cl of
                   None \<Rightarrow> (False, logged (ErrorDownloadingImage mid) s2)
                 | Some c \<Rightarrow>
                     let s3 = s2\<lparr>media_requests := media_requests s2 @ [mid]\<rparr> in
                     (case download_media c msg of
                        Some e \<Rightarrow> (False, logged (ErrorDownloadingImage mid) s3)
                      | None \<Rightarrow>
                          (True,
                           (write_file chan (image_file_name mid) s3)
                             \<lparr>downloaded_images_count :=
                                (downloaded_images_count s3)(config_channel \<mapsto> count_of s3 config_channel + 1)\<rparr>)))
              else (True, s2))"

subsection \<open>Channel iteration\<close>

text \<open>\<open>len(list(image_dir.glob("*.jpg")))\<close>, and 0 where the directory does not exist\<close>

definition is_jpg :: "string \<Rightarrow> bool" where
  "is_jpg name = starts_with (rev ''.jpg'') (rev name)"

definition count_existing_images :: "scraper \<Rightarrow> string \<Rightarrow> int" where
  "count_existing_images s chan =
     (case image_dirs s chan of None \<Rightarrow> 0 | Some names \<Rightarrow> int (length (filter is_jpg names)))"

text \<open>\<open>scrape_channel\<close>, lines 295 to 326: the counter of a channel met for the first time\<close>

definition init_image_counter :: "string \<Rightarrow> string \<Rightarrow> int \<Rightarrow> scraper \<Rightarrow> scraper" where
  "init_image_counter chan config_channel max_images s =
     (if downloaded_images_count s config_channel = None then
        let existing_count = count_existing_images s chan;
            s1 = s\<lparr>downloaded_images_count := (downloaded_images_count s)(config_channel \<mapsto> existing_count)\<rparr>
        in
        if existing_count \<ge> max_images
        then (logged (LimitAlreadyReached chan existing_count max_images) s1)
               \<lparr>channel_limit_reached := insert config_channel (channel_limit_reached s1)\<rparr>
        else s1
      else
        if count_of s config_channel \<ge> max_images \<and> config_channel \<notin> channel_limit_reached s
        then (logged (LimitReachedInSession chan (count_of s config_channel) max_images) s)
               \<lparr>channel_limit_reached := insert config_channel (channel_limit_reached s)\<rparr>
        else s)"

text \<open>
  The body of the \<open>try\<close> inside the \<open>async for\<close> loop, lines 337 to 371. The first
  component of the result is the exception that leaves the body, if any.
\<close>

definition process_message ::
  "client option \<Rightarrow> datetime \<Rightarrow> string \<Rightarrow> raw_message \<Rightarrow> message list \<times> scraper
     \<Rightarrow> exn option \<times> message list \<times> scraper" where
  "process_message cl now chan msg acc =
     (case acc of (messages, s) \<Rightarrow>
        (case extract_message_data now msg chan of
           None \<Rightarrow> (None, messages, sleep PacingDelay s)
         | Some message_data \<Rightarrow>
             if has_media message_data \<and> image_path message_data \<noteq> None then
               (case download_image cl msg chan (message_id message_data) s of
                  (downloaded, s') \<Rightarrow> (None, messages @ [message_data], sleep PacingDelay s'))
             else (None, messages @ [message_data], sleep PacingDelay s)))"

text \<open>
  The \<open>async for\<close> loop with its two handlers. An exception raised by the iterator
  itself is raised in the loop header, outside the inner \<open>try\<close>: it ends the loop and
  reaches the handler around the whole function.
\<close>

fun iterate_messages ::
  "client option \<Rightarrow> datetime \<Rightarrow> string \<Rightarrow> iter_event list \<Rightarrow> message list \<times> scraper
     \<Rightarrow> exn option \<times> message list \<times> scraper" where
  "iterate_messages cl now chan [] acc = (None, acc)"
| "iterate_messages cl now chan (Raise e # rest) acc = (Some e, acc)"
| "iterate_messages cl now chan (Yield msg # rest) acc =
     (case process_message cl now chan msg acc of
        (None, acc') \<Rightarrow> iterate_messages cl now chan rest acc'
      | (Some (FloodWaitError wait_time), messages, s) \<Rightarrow>
          iterate_messages cl now chan rest
            (messages, sleep (FloodPause wait_time) (logged (RateLimited wait_time) s))
      | (Some e, messages, s) \<Rightarrow>
          iterate_messages cl now chan rest (messages, logged (ErrorProcessingMessage (raw_id msg)) s))"

text \<open>\<open>entity.title or channel_username\<close>\<close>

definition display_name :: "entity \<Rightarrow> string \<Rightarrow> string" where
  "display_name ent channel_username =
     (case title ent of
        None \<Rightarrow> channel_username
      | Some t \<Rightarrow> if t = [] then channel_username else t)"

definition scrape_channel ::
  "client option \<Rightarrow> datetime \<Rightarrow> string \<Rightarrow> int option \<Rightarrow> datetime option \<Rightarrow> scraper
     \<Rightarrow> message list \<times> scraper" where
  "scrape_channel cl now channel_username limit offset_date s =
     (case cl of
        None \<Rightarrow> ([], logged ClientNotConnected s)
      | Some c \<Rightarrow>
         (case get_entity c channel_username of
            Inl UsernameNotOccupiedError \<Rightarrow> ([], logged (ChannelDoesNotExist channel_username) s)
          | Inl ChannelPrivateError \<Rightarrow> ([], logged (ChannelIsPrivate channel_username) s)
          | Inl e \<Rightarrow> ([], logged (ErrorScrapingChannel channel_username) s)
          | Inr ent \<Rightarrow>
              let chan = display_name ent channel_username;
                  config_channel = get_config_channel_name (channel_max_images s) chan
              in
              (case get_max_images_for_channel (channel_max_images s) (default_max_images s) chan of
                 Inl e \<Rightarrow> ([], logged (ErrorScrapingChannel channel_username) s)
               | Inr max_images \<Rightarrow>
                   (case iterate_messages cl now chan (iter_messages c ent limit offset_date)
                           ([], init_image_counter chan config_channel max_images s) of
                      (Some e, messages, s') \<Rightarrow>
                        (messages, logged (ErrorScrapingChannel channel_username) s')
                    | (None, messages, s') \<Rightarrow>
                        (messages, s'\<lparr>scraped_channels := insert chan (scraped_channels s')\<rparr>)))))"

subsection \<open>Partitioned persistence writer\<close>

text \<open>The two lines that compute \<open>safe_channel_name\<close>.\<close>

definition safe_channel_name :: "string \<Rightarrow> string" where
  "safe_channel_name chan =
     map (\<lambda>c. if c = CHR '' '' then CHR ''_'' else c)
       (strip (filter (\<lambda>c. isalnum c \<or> c = CHR '' '' \<or> c = CHR ''-'' \<or> c = CHR ''_'') chan))"

text \<open>The merge of lines 559 to 562.\<close>

definition merge_messages :: "message list \<Rightarrow> message list \<Rightarrow> message list" where
  "merge_messages existing_data messages =
     (let existing_ids = set (map message_id existing_data);
          new_messages = filter (\<lambda>msg. message_id msg \<notin> existing_ids) messages
      in existing_data @ new_messages)"

text \<open>
  Lines 550 to 556: \<open>existing_data\<close> stays the empty list where the file does not
  exist and where \<open>json.load\<close> raises \<open>JSONDecodeError\<close>, which is logged.
\<close>

definition load_existing_data :: "(date_str \<times> string) \<Rightarrow> scraper \<Rightarrow> message list \<times> scraper" where
  "load_existing_data output_file s =
     (case partitions s output_file of
        None \<Rightarrow> ([], s)
      | Some Undecodable \<Rightarrow> ([], logged (CouldNotReadExistingFile output_file) s)
      | Some (Json stored) \<Rightarrow> (stored, s))"

text \<open>\<open>save_messages_to_json\<close>\<close>

definition save_messages_to_json ::
  "datetime \<Rightarrow> message list \<Rightarrow> string \<Rightarrow> datetime option \<Rightarrow> scraper \<Rightarrow> scraper" where
  "save_messages_to_json now messages chan date s =
     (if messages = [] then logged (NoMessagesToSave chan) s
      else
        let date_str = strftime_ymd (case date of None \<Rightarrow> now | Some d \<Rightarrow> d);
            output_file = (date_str, safe_channel_name chan)
        in
        (case load_existing_data output_file s of
           (existing_data, s1) \<Rightarrow>
             s1\<lparr>partitions := (partitions s1)(output_file \<mapsto> Json (merge_messages existing_data messages)),
                scraped_dates := insert date_str (scraped_dates s1)\<rparr>))"

text \<open>
  \<open>scrape_multiple_channels\<close>, lines 590 to 605: the dict \<open>messages_by_date\<close> as an
  association list in insertion order, filled by the first loop and written by the second.
\<close>

definition date_key :: "datetime \<Rightarrow> message \<Rightarrow> date_str" where
  "date_key now msg = strftime_ymd (case message_date msg of Some d \<Rightarrow> d | None \<Rightarrow> now)"

definition append_to_group :: "date_str \<Rightarrow> message \<Rightarrow> (date_str \<times> message list) list \<Rightarrow> (date_str \<times> message list) list" where
  "append_to_group k msg groups =
     (let groups1 = (if k \<notin> set (map fst groups) then groups @ [(k, [])] else groups)
      in map (\<lambda>(k', ms). if k' = k then (k', ms @ [msg]) else (k', ms)) groups1)"

fun group_by_date :: "datetime \<Rightarrow> message list \<Rightarrow> (date_str \<times> message list) list \<Rightarrow> (date_str \<times> message list) list" where
  "group_by_date now [] messages_by_date = messages_by_date"
| "group_by_date now (msg # rest) messages_by_date =
     group_by_date now rest (append_to_group (date_key now msg) msg messages_by_date)"

fun save_groups :: "datetime \<Rightarrow> string \<Rightarrow> (date_str \<times> message list) list \<Rightarrow> scraper \<Rightarrow> scraper" where
  "save_groups now chan [] s = s"
| "save_groups now chan ((date_str, date_messages) # rest) s =
     save_groups now chan rest
       (save_messages_to_json now date_messages chan (Some (strptime_ymd date_str)) s)"

definition save_messages_by_date :: "datetime \<Rightarrow> message list \<Rightarrow> scraper \<Rightarrow> scraper" where
  "save_messages_by_date now messages s =
     (case messages of
        [] \<Rightarrow> s
      | first # _ \<Rightarrow> save_groups now (channel_name first) (group_by_date now messages []) s)"

text \<open>
  The body of the loop of \<open>scrape_multiple_channels\<close> for one username, and the loop.
  \<open>cl\<close> is \<open>self.client\<close> after the attempt to connect.
\<close>

definition scrape_and_save :: "client option \<Rightarrow> datetime \<Rightarrow> int option \<Rightarrow> string \<Rightarrow> scraper \<Rightarrow> scraper" where
  "scrape_and_save cl now limit_per_channel uname s =
     (case scrape_channel cl now uname limit_per_channel None s of
        (messages, s') \<Rightarrow> sleep ChannelDelay (save_messages_by_date now messages s'))"

fun scrape_multiple_channels :: "client option \<Rightarrow> datetime \<Rightarrow> string list \<Rightarrow> int option \<Rightarrow> scraper \<Rightarrow> scraper" where
  "scrape_multiple_channels cl now [] limit_per_channel s = s"
| "scrape_multiple_channels cl now (uname # rest) limit_per_channel s =
     scrape_multiple_channels cl now rest limit_per_channel (scrape_and_save cl now limit_per_channel uname s)"

subsection \<open>A new scraper, and values for the examples\<close>

text \<open>
  \<open>__init__\<close>: empty counters and sets, the limits read from the environment. The
  directories and files found on disk are arguments.
\<close>

definition new_scraper ::
  "limits \<Rightarrow> int \<Rightarrow> (string \<rightharpoonup> string list) \<Rightarrow> ((date_str \<times> string) \<rightharpoonup> file_content) \<Rightarrow> scraper" where
  "new_scraper lims dflt dirs files =
     \<lparr>channel_max_images = lims,
      default_max_images = dflt,
      downloaded_images_count = Map.empty,
      channel_limit_reached = {},
      scraped_channels = {},
      scraped_dates = {},
      image_dirs = dirs,
      partitions = files,
      log_records = [],
      media_requests = [],
      sleeps = []\<rparr>"

definition default_limits :: limits where
  "default_limits = load_channel_limits (\<lambda>_. None) Map.empty 1500"

definition jan17 :: datetime where
  "jan17 = \<lparr>year = 2026, month = 1, day = 17, seconds_of_day = 36000\<rparr>"

definition jan18 :: datetime where
  "jan18 = \<lparr>year = 2026, month = 1, day = 18, seconds_of_day = 60\<rparr>"

definition photo_message :: "int \<Rightarrow> datetime \<Rightarrow> raw_message" where
  "photo_message i d =
     \<lparr>raw_id = i, raw_date = Some d, raw_text = Some ''paracetamol 500mg'',
      raw_media = MessageMediaPhoto, raw_views = Some 10, raw_forwards = None,
      raw_is_reply = False, raw_reply_to_msg_id = None\<rparr>"

definition text_message :: "int \<Rightarrow> datetime \<Rightarrow> raw_message" where
  "text_message i d = (photo_message i d)\<lparr>raw_media := NoMedia\<rparr>"

definition record_of :: "raw_message \<Rightarrow> message" where
  "record_of msg = the (extract_message_data jan18 msg ''CheMed123'')"

text \<open>A provider that finds every channel under its username and serves the given events.\<close>

definition provider :: "iter_event list \<Rightarrow> client" where
  "provider events =
     \<lparr>get_entity = (\<lambda>u. Inr \<lparr>title = None, username = u\<rparr>),
      iter_messages = (\<lambda>ent limit offset_date. events),
      download_media = (\<lambda>msg. None)\<rparr>"

definition msg_a :: message where
  "msg_a = record_of (photo_message 5 jan17)"

definition msg_b :: message where
  "msg_b = record_of (text_message 6 jan17)"

definition msg_c :: message where
  "msg_c = record_of (text_message 7 jan18)"

definition jan17_file :: "date_str \<times> string" where
  "jan17_file = ((2026, 1, 17), ''CheMed123'')"

definition jan18_file :: "date_str \<times> string" where
  "jan18_file = ((2026, 1, 18), ''CheMed123'')"

text \<open>A new scraper with the default limits that finds the given partition files and no images.\<close>

definition scraper_with_files :: "((date_str \<times> string) \<rightharpoonup> file_content) \<Rightarrow> scraper" where
  "scraper_with_files files = new_scraper default_limits 1500 Map.empty files"

lemma starts_with_prefix: "starts_with p s = prefix p s"
  by (induction p s rule: starts_with.induct) auto

lemma contains_sublist: "contains p s = sublist p s"
  by (induction s) (auto simp: starts_with_prefix sublist_Cons_right)

text \<open>Scrapers that find image files on disk.\<close>

definition scraper_with_images :: "limits \<Rightarrow> (string \<rightharpoonup> string list) \<Rightarrow> scraper" where
  "scraper_with_images lims dirs = new_scraper lims 1500 dirs Map.empty"

definition one_image_on_disk :: scraper where
  "one_image_on_disk = scraper_with_images default_limits [''CheMed123'' \<mapsto> [''5.jpg'']]"

definition one_image_counted :: scraper where
  "one_image_counted = init_image_counter ''CheMed123'' ''CheMed123'' 1500 one_image_on_disk"

definition two_images_quota_two :: scraper where
  "two_images_quota_two =
     scraper_with_images
       (load_channel_limits (\<lambda>v. if v = ''2'' then Some 2 else None) [''MAX_IMAGES_CheMed123'' \<mapsto> ''2''] 1500)
       [''CheMed123'' \<mapsto> [''1.jpg'', ''2.jpg'', ''notes.txt'']]"

text \<open>
  An iteration in which the request for the second page is answered by a flood wait of
  three seconds.
\<close>

definition flood_wait_events :: "iter_event list" where
  "flood_wait_events =
     [Yield (photo_message 1 jan17), Raise (FloodWaitError 3), Yield (text_message 2 jan17)]"

text \<open>A record without \<open>message_date\<close>, and a scraper on which the quota of two is reached.\<close>

definition msg_d :: message where
  "msg_d = record_of ((text_message 8 jan17)\<lparr>raw_date := None\<rparr>)"

definition quota_reached :: scraper where
  "quota_reached = init_image_counter ''CheMed123'' ''CheMed123'' 2 two_images_quota_two"

section \<open>Properties of the channel limit registry\<close>

lemma max_images_ci_find:
  "max_images_ci d n = map_option snd (find (\<lambda>(key, q). lower key = lower n) d)"
  by (induction d) auto

lemma max_images_pattern_quotas:
  "max_images_pattern d norm tbl =
     (case List.map_filter (\<lambda>(p, key). if contains p norm then map_of d key else None) tbl of
        [] \<Rightarrow> None | q # _ \<Rightarrow> Some (Inr q))"
  by (induction tbl) (auto simp: has_key_def dict_get_def split: option.splits if_splits)

lemma normalize_known:
  "normalize_name ''lobelia'' = ''lobelia''"
  "normalize_name ''chemed'' = ''chemed''"
  "normalize_name ''tikvah'' = ''tikvah''"
  by code_simp+

lemma lower_known:
  "lower ''CheMed123'' = ''chemed123''"
  "lower ''lobelia4cosmetics'' = ''lobelia4cosmetics''"
  "lower ''tikvahpharma'' = ''tikvahpharma''"
  "lower ''chemed123'' = ''chemed123''"
  "lower ''ChEmEd123'' = ''chemed123''"
  by (simp_all add: lower_def lower_char_def ascii_uppercase_def ascii_lowercase_def)

lemma normalize_name_lower:
  "normalize_name n = remove_char CHR ''-'' (remove_char CHR ''_'' (remove_char CHR '' '' (lower n)))"
  by (simp add: normalize_name_def)

lemma has_key_load:
  "has_key (load_channel_limits parse env dflt) n \<longleftrightarrow>
     n = ''CheMed123'' \<or> n = ''lobelia4cosmetics'' \<or> n = ''tikvahpharma''"
  by (simp add: has_key_def load_channel_limits_def known_channel_names_def)

lemma config_name_ci_load:
  "config_name_ci (load_channel_limits parse env dflt) n =
     (if lower n = ''chemed123'' then Some ''CheMed123''
      else if lower n = ''lobelia4cosmetics'' then Some ''lobelia4cosmetics''
      else if lower n = ''tikvahpharma'' then Some ''tikvahpharma''
      else None)"
  by (auto simp: load_channel_limits_def known_channel_names_def lower_known)

lemma config_name_pattern_mappings:
  "config_name_pattern norm channel_mappings =
     (if contains ''lobelia'' norm then Some ''lobelia4cosmetics''
      else if contains ''chemed'' norm then Some ''CheMed123''
      else if contains ''tikvah'' norm then Some ''tikvahpharma''
      else None)"
  by (simp add: channel_mappings_def)

lemma normalize_of_lower:
  "lower n = ''lobelia4cosmetics'' \<Longrightarrow> normalize_name n = ''lobelia4cosmetics''"
  "lower n = ''tikvahpharma'' \<Longrightarrow> normalize_name n = ''tikvahpharma''"
  "lower n = ''chemed123'' \<Longrightarrow> normalize_name n = ''chemed123''"
  by (simp_all add: normalize_name_lower remove_char_def)

lemma contains_known:
  "contains ''lobelia'' ''lobelia4cosmetics''" "\<not> contains ''chemed'' ''tikvahpharma''"
  "contains ''chemed'' ''chemed123''" "\<not> contains ''lobelia'' ''chemed123''"
  by simp_all

lemma chemed_names:
  assumes c: "contains ''chemed'' (normalize_name n)" and l: "\<not> contains ''lobelia'' (normalize_name n)"
  shows "get_config_channel_name (load_channel_limits parse env dflt) n = ''CheMed123''"
proof -
  have nl: "lower n \<noteq> ''lobelia4cosmetics''"
    using l normalize_of_lower(1) [of n] contains_known(1) by auto
  have nt: "lower n \<noteq> ''tikvahpharma''"
    using c normalize_of_lower(2) [of n] contains_known(2) by auto
  have "n \<noteq> ''lobelia4cosmetics''" "n \<noteq> ''tikvahpharma''"
    using nl nt lower_known by auto
  then show ?thesis
    using nl nt c l
    by (simp add: get_config_channel_name_def has_key_load config_name_ci_load config_name_pattern_mappings)
qed

lemma normalize_examples:
  "normalize_name ''CheMed123'' = ''chemed123''" "normalize_name ''chemed123'' = ''chemed123''"
  "normalize_name ''ChEmEd123'' = ''chemed123''" "normalize_name ''Che Med-123'' = ''chemed123''"
  by code_simp+

lemma fuzzy_quotas_contains:
  "fuzzy_quotas d n =
     List.map_filter (\<lambda>(p, key). if contains p (normalize_name n) then map_of d key else None)
       channel_mappings"
  by (simp add: fuzzy_quotas_def channel_mappings_def List.map_filter_def normalize_known contains_sublist)

lemma get_max_images_for_channel_Inr:
  "get_max_images_for_channel d dflt n = Inr (resolve_quota_spec d dflt n)"
  unfolding get_max_images_for_channel_def resolve_quota_spec_def Let_def max_images_ci_find
    max_images_pattern_quotas fuzzy_quotas_contains has_key_def dict_get_def
  by (auto split: option.splits list.splits)



lemma normalize_keys:
  "normalize_name ''CheMed123'' = ''chemed123''"
  "normalize_name ''lobelia4cosmetics'' = ''lobelia4cosmetics''"
  "normalize_name ''tikvahpharma'' = ''tikvahpharma''"
  by code_simp+

lemma contains_keys:
  "contains ''lobelia'' ''lobelia4cosmetics''"
  "\<not> contains ''lobelia'' ''tikvahpharma''"
  "\<not> contains ''chemed'' ''tikvahpharma''"
  "contains ''tikvah'' ''tikvahpharma''"
  by code_simp+

lemma variant_resolves_to_key:
  assumes "key \<in> set known_channel_names" and "normalize_name n = normalize_name key"
  shows "get_config_channel_name (load_channel_limits parse env dflt) n = key"
proof -
  from assms(1) consider "key = ''CheMed123''" | "key = ''lobelia4cosmetics''" | "key = ''tikvahpharma''"
    by (auto simp: known_channel_names_def)
  then show ?thesis
  proof cases
    case 1
    with assms(2) have "normalize_name n = ''chemed123''"
      by (simp add: normalize_keys)
    then have "contains ''chemed'' (normalize_name n)" "\<not> contains ''lobelia'' (normalize_name n)"
      by (simp_all add: contains_known)
    then show ?thesis
      unfolding 1 by (rule chemed_names)
  next
    case 2
    with assms(2) have n: "normalize_name n = ''lobelia4cosmetics''"
      by (simp add: normalize_keys)
    have a: "n \<noteq> ''CheMed123''" "n \<noteq> ''tikvahpharma''"
      using n normalize_keys by auto
    have b: "lower n \<noteq> ''chemed123''" "lower n \<noteq> ''tikvahpharma''"
      using n normalize_of_lower [of n] by auto
    show ?thesis
      unfolding 2 using a b
      by (simp add: get_config_channel_name_def has_key_load config_name_ci_load
            config_name_pattern_mappings n contains_keys)
  next
    case 3
    with assms(2) have n: "normalize_name n = ''tikvahpharma''"
      by (simp add: normalize_keys)
    have a: "n \<noteq> ''CheMed123''" "n \<noteq> ''lobelia4cosmetics''"
      using n normalize_keys by auto
    have b: "lower n \<noteq> ''chemed123''" "lower n \<noteq> ''lobelia4cosmetics''"
      using n normalize_of_lower [of n] by auto
    show ?thesis
      unfolding 3 using a b
      by (simp add: get_config_channel_name_def has_key_load config_name_ci_load
            config_name_pattern_mappings n contains_keys)
  qed
qed

lemma chemed_examples:
  "get_config_channel_name (load_channel_limits parse env dflt) ''CheMed123'' = ''CheMed123''"
  "get_config_channel_name (load_channel_limits parse env dflt) ''chemed123'' = ''CheMed123''"
  "get_config_channel_name (load_channel_limits parse env dflt) ''ChEmEd123'' = ''CheMed123''"
  by (rule chemed_names; simp add: normalize_examples)+

section \<open>Properties of the media downloader\<close>

lemma count_of_absent: "downloaded_images_count s k = None \<Longrightarrow> count_of s k = 0"
  by (auto simp: count_of_def split: option.splits)

lemma file_exists_mkdir: "file_exists (mkdir chan s) c name = file_exists s c name"
  by (auto simp: file_exists_def mkdir_def split: option.splits)

lemma mkdir_existing: "file_exists s chan name \<Longrightarrow> mkdir chan s = s"
  by (auto simp: file_exists_def mkdir_def split: option.splits)

lemma file_exists_write_file: "file_exists (write_file chan name s) chan name"
  by (auto simp: file_exists_def write_file_def split: option.splits)

lemma download_image_no_photo:
  "raw_media msg \<noteq> MessageMediaPhoto \<Longrightarrow> download_image cl msg chan mid s = (False, s)"
  by (simp add: download_image_def)

lemma download_image_exhausted:
  assumes "raw_media msg = MessageMediaPhoto"
    and "get_max_images_for_channel (channel_max_images s) (default_max_images s) chan = Inr M"
    and "count_of s (get_config_channel_name (channel_max_images s) chan) \<ge> M"
  shows "fst (download_image cl msg chan mid s) = False"
    and "image_dirs (snd (download_image cl msg chan mid s)) = image_dirs s"
    and "media_requests (snd (download_image cl msg chan mid s)) = media_requests s"
    and "partitions (snd (download_image cl msg chan mid s)) = partitions s"
    and "count_of (snd (download_image cl msg chan mid s)) k = count_of s k"
    and "channel_max_images (snd (download_image cl msg chan mid s)) = channel_max_images s"
    and "default_max_images (snd (download_image cl msg chan mid s)) = default_max_images s"
  using assms
  by (auto simp: download_image_def Let_def logged_def count_of_def split: option.splits)

lemma download_image_file_exists:
  assumes "raw_media msg = MessageMediaPhoto"
    and "get_max_images_for_channel (channel_max_images s) (default_max_images s) chan = Inr M"
    and "count_of s (get_config_channel_name (channel_max_images s) chan) < M"
    and "file_exists s chan (image_file_name mid)"
  shows "download_image cl msg chan mid s =
           (True, s\<lparr>downloaded_images_count := (downloaded_images_count s)
                     (get_config_channel_name (channel_max_images s) chan \<mapsto>
                        count_of s (get_config_channel_name (channel_max_images s) chan))\<rparr>)"
proof (cases "downloaded_images_count s (get_config_channel_name (channel_max_images s) chan)")
  case None
  with assms show ?thesis
    by (simp add: download_image_def Let_def file_exists_mkdir count_of_def mkdir_def file_exists_def
          split: option.splits)
next
  case (Some y)
  then have "(downloaded_images_count s)
               (get_config_channel_name (channel_max_images s) chan \<mapsto>
                  count_of s (get_config_channel_name (channel_max_images s) chan)) =
             downloaded_images_count s"
    by (auto simp: count_of_def)
  with Some assms show ?thesis
    by (simp add: download_image_def Let_def file_exists_mkdir mkdir_existing)
qed


lemma download_image_fetched:
  assumes "raw_media msg = MessageMediaPhoto"
    and "get_max_images_for_channel (channel_max_images s) (default_max_images s) chan = Inr M"
    and "count_of s (get_config_channel_name (channel_max_images s) chan) < M"
    and "\<not> file_exists s chan (image_file_name mid)"
    and "download_media c msg = None"
  shows "fst (download_image (Some c) msg chan mid s) = True"
    and "downloaded_images_count (snd (download_image (Some c) msg chan mid s)) =
           (downloaded_images_count s)
             (get_config_channel_name (channel_max_images s) chan \<mapsto>
                count_of s (get_config_channel_name (channel_max_images s) chan) + 1)"
    and "file_exists (snd (download_image (Some c) msg chan mid s)) chan (image_file_name mid)"
    and "media_requests (snd (download_image (Some c) msg chan mid s)) = media_requests s @ [mid]"
  using assms
  by (auto simp: download_image_def Let_def file_exists_mkdir count_of_absent count_of_def
        file_exists_def write_file_def mkdir_def split: option.splits)

lemma download_image_fetch_fails:
  assumes "raw_media msg = MessageMediaPhoto"
    and "get_max_images_for_channel (channel_max_images s) (default_max_images s) chan = Inr M"
    and "count_of s (get_config_channel_name (channel_max_images s) chan) < M"
    and "\<not> file_exists s chan (image_file_name mid)"
    and "cl = None \<or> (\<exists>c e. cl = Some c \<and> download_media c msg = Some e)"
  shows "fst (download_image cl msg chan mid s) = False"
    and "count_of (snd (download_image cl msg chan mid s)) k = count_of s k"
    and "\<not> file_exists (snd (download_image cl msg chan mid s)) chan (image_file_name mid)"
  using assms
  by (auto simp: download_image_def Let_def file_exists_mkdir count_of_absent count_of_def logged_def
        file_exists_def mkdir_def split: option.splits)

lemma download_image_requests:
  "media_requests (snd (download_image cl msg chan mid s)) \<noteq> media_requests s \<Longrightarrow>
     \<not> file_exists s chan (image_file_name mid)"
  by (auto simp: download_image_def Let_def logged_def file_exists_def mkdir_def
        split: option.splits sum.splits if_splits)

lemma download_image_count_changes:
  "count_of (snd (download_image cl msg chan mid s)) k \<noteq> count_of s k \<Longrightarrow>
     \<not> file_exists s chan (image_file_name mid) \<and> k = get_config_channel_name (channel_max_images s) chan"
  by (auto simp: download_image_def Let_def logged_def file_exists_def mkdir_def count_of_def write_file_def
        split: option.splits sum.splits if_splits)

lemma download_image_other_counters:
  "k \<noteq> get_config_channel_name (channel_max_images s) chan \<Longrightarrow>
     downloaded_images_count (snd (download_image cl msg chan mid s)) k = downloaded_images_count s k"
  by (auto simp: download_image_def Let_def logged_def mkdir_def write_file_def
        split: option.splits sum.splits if_splits)

text \<open>
  C8 (as amended). For a message that carries a photo, on a channel whose quota is not
  exhausted: where the target file exists, \<open>download_image\<close> returns \<open>True\<close> and
  requests nothing; the state is unchanged but for a missing counter, which is created
  with the value 0. Where the file does not exist and the provider delivers, the media
  is requested, the file written and the counter incremented by one; where the client is
  unset or the provider raises, the result is \<open>False\<close> and no counter changes.
  Media is requested, or the value of a counter changed, only where the file did not
  exist.
\<close>

theorem download_image_existing_file:
  assumes "raw_media msg = MessageMediaPhoto"
    and "get_max_images_for_channel (channel_max_images s) (default_max_images s) chan = Inr max_images"
    and "count_of s (get_config_channel_name (channel_max_images s) chan) < max_images"
  shows "(file_exists s chan (image_file_name mid) \<longrightarrow>
            download_image cl msg chan mid s =
              (True, s\<lparr>downloaded_images_count := (downloaded_images_count s)
                         (get_config_channel_name (channel_max_images s) chan \<mapsto>
                            count_of s (get_config_channel_name (channel_max_images s) chan))\<rparr>)
            \<and> (downloaded_images_count s (get_config_channel_name (channel_max_images s) chan) \<noteq> None \<longrightarrow>
                  download_image cl msg chan mid s = (True, s)))
       \<and> (\<not> file_exists s chan (image_file_name mid) \<longrightarrow>
            (\<forall>c. cl = Some c \<and> download_media c msg = None \<longrightarrow>
                 fst (download_image cl msg chan mid s)
               \<and> downloaded_images_count (snd (download_image cl msg chan mid s)) =
                   (downloaded_images_count s)
                     (get_config_channel_name (channel_max_images s) chan \<mapsto>
                        count_of s (get_config_channel_name (channel_max_images s) chan) + 1)
               \<and> file_exists (snd (download_image cl msg chan mid s)) chan (image_file_name mid)
               \<and> media_requests (snd (download_image cl msg chan mid s)) = media_requests s @ [mid])
          \<and> (cl = None \<or> (\<exists>c e. cl = Some c \<and> download_media c msg = Some e) \<longrightarrow>
                 \<not> fst (download_image cl msg chan mid s)
               \<and> (\<forall>k. count_of (snd (download_image cl msg chan mid s)) k = count_of s k)
               \<and> \<not> file_exists (snd (download_image cl msg chan mid s)) chan (image_file_name mid)))
       \<and> (media_requests (snd (download_image cl msg chan mid s)) \<noteq> media_requests s \<longrightarrow>
            \<not> file_exists s chan (image_file_name mid))
       \<and> (\<forall>k. count_of (snd (download_image cl msg chan mid s)) k \<noteq> count_of s k \<longrightarrow>
            \<not> file_exists s chan (image_file_name mid))"
proof (intro conjI impI allI)
  assume f: "file_exists s chan (image_file_name mid)"
  show e: "download_image cl msg chan mid s =
              (True, s\<lparr>downloaded_images_count := (downloaded_images_count s)
                         (get_config_channel_name (channel_max_images s) chan \<mapsto>
                            count_of s (get_config_channel_name (channel_max_images s) chan))\<rparr>)"
    using assms f by (rule download_image_file_exists)
  assume "downloaded_images_count s (get_config_channel_name (channel_max_images s) chan) \<noteq> None"
  then have "(downloaded_images_count s)
               (get_config_channel_name (channel_max_images s) chan \<mapsto>
                  count_of s (get_config_channel_name (channel_max_images s) chan)) =
             downloaded_images_count s"
    by (auto simp: count_of_def)
  with e show "download_image cl msg chan mid s = (True, s)"
    by simp
next
  fix c
  assume n: "\<not> file_exists s chan (image_file_name mid)" and "cl = Some c \<and> download_media c msg = None"
  then have c: "cl = Some c" and d: "download_media c msg = None" by simp_all
  show "fst (download_image cl msg chan mid s)"
    unfolding c using download_image_fetched(1) [OF assms n d] by simp
  show "downloaded_images_count (snd (download_image cl msg chan mid s)) =
                   (downloaded_images_count s)
                     (get_config_channel_name (channel_max_images s) chan \<mapsto>
                        count_of s (get_config_channel_name (channel_max_images s) chan) + 1)"
    unfolding c by (rule download_image_fetched(2) [OF assms n d])
  show "file_exists (snd (download_image cl msg chan mid s)) chan (image_file_name mid)"
    unfolding c by (rule download_image_fetched(3) [OF assms n d])
  show "media_requests (snd (download_image cl msg chan mid s)) = media_requests s @ [mid]"
    unfolding c by (rule download_image_fetched(4) [OF assms n d])
next
  assume n: "\<not> file_exists s chan (image_file_name mid)"
    and e: "cl = None \<or> (\<exists>c e. cl = Some c \<and> download_media c msg = Some e)"
  show "\<not> fst (download_image cl msg chan mid s)"
    using download_image_fetch_fails(1) [OF assms n e] by simp
  show "\<not> file_exists (snd (download_image cl msg chan mid s)) chan (image_file_name mid)"
    by (rule download_image_fetch_fails(3) [OF assms n e])
  fix k
  show "count_of (snd (download_image cl msg chan mid s)) k = count_of s k"
    by (rule download_image_fetch_fails(2) [OF assms n e])
next
  assume "media_requests (snd (download_image cl msg chan mid s)) \<noteq> media_requests s"
  then show "\<not> file_exists s chan (image_file_name mid)"
    by (rule download_image_requests)
next
  fix k
  assume "count_of (snd (download_image cl msg chan mid s)) k \<noteq> count_of s k"
  then show "\<not> file_exists s chan (image_file_name mid)"
    using download_image_count_changes by blast
qed


theorem download_image_existing_file_witness:
  "raw_media (photo_message 5 jan17) = MessageMediaPhoto
   \<and> get_max_images_for_channel (channel_max_images one_image_counted)
        (default_max_images one_image_counted) ''CheMed123'' = Inr 1500
   \<and> count_of one_image_counted (get_config_channel_name (channel_max_images one_image_counted) ''CheMed123'') < 1500
   \<and> file_exists one_image_counted ''CheMed123'' (image_file_name 5)
   \<and> downloaded_images_count one_image_counted ''CheMed123'' = Some 1
   \<and> download_image (Some (provider [])) (photo_message 5 jan17) ''CheMed123'' 5 one_image_counted
        = (True, one_image_counted)
   \<and> \<not> file_exists one_image_counted ''CheMed123'' (image_file_name 6)
   \<and> download_media (provider []) (photo_message 6 jan17) = None
   \<and> fst (download_image (Some (provider [])) (photo_message 6 jan17) ''CheMed123'' 6 one_image_counted)
   \<and> downloaded_images_count
        (snd (download_image (Some (provider [])) (photo_message 6 jan17) ''CheMed123'' 6 one_image_counted))
        ''CheMed123'' = Some 2"
proof -
  have p: "raw_media (photo_message i jan17) = MessageMediaPhoto" for i
    by (simp add: photo_message_def)
  have q: "get_max_images_for_channel (channel_max_images one_image_counted)
        (default_max_images one_image_counted) ''CheMed123'' = Inr 1500"
    by code_simp
  have k: "get_config_channel_name (channel_max_images one_image_counted) ''CheMed123'' = ''CheMed123''"
    by code_simp
  have c: "count_of one_image_counted (get_config_channel_name (channel_max_images one_image_counted) ''CheMed123'') < 1500"
    by code_simp
  have n: "downloaded_images_count one_image_counted ''CheMed123'' = Some 1"
    by code_simp
  have f5: "file_exists one_image_counted ''CheMed123'' (image_file_name 5)"
    by code_simp
  have f6: "\<not> file_exists one_image_counted ''CheMed123'' (image_file_name 6)"
    by code_simp
  have d: "download_media (provider []) (photo_message 6 jan17) = None"
    by (simp add: provider_def)
  have c1: "count_of one_image_counted ''CheMed123'' = 1"
    using n by (simp add: count_of_def)
  from download_image_existing_file [OF p [of 5] q c, where mid = 5 and cl = "Some (provider [])"] f5
  have "downloaded_images_count one_image_counted
            (get_config_channel_name (channel_max_images one_image_counted) ''CheMed123'') \<noteq> None \<longrightarrow>
        download_image (Some (provider [])) (photo_message 5 jan17) ''CheMed123'' 5 one_image_counted
          = (True, one_image_counted)"
    by blast
  then have r5: "download_image (Some (provider [])) (photo_message 5 jan17) ''CheMed123'' 5 one_image_counted
        = (True, one_image_counted)"
    unfolding k using n by simp
  from download_image_existing_file [OF p [of 6] q c, where mid = 6 and cl = "Some (provider [])"] f6 d
  have r6: "fst (download_image (Some (provider [])) (photo_message 6 jan17) ''CheMed123'' 6 one_image_counted)
     \<and> downloaded_images_count
        (snd (download_image (Some (provider [])) (photo_message 6 jan17) ''CheMed123'' 6 one_image_counted))
        ''CheMed123'' = Some 2"
    unfolding k c1 by simp
  from p q c f5 n r5 f6 d r6 show ?thesis by blast
qed

text \<open>
  The claim as stated fails: with the file on disk and the quota not exhausted, the call
  returns \<open>False\<close> for a message without a photo, and for a photo on a scraper that
  has no counter for the channel yet it creates the counter.
\<close>

theorem download_image_existing_file_counterexample:
  "file_exists one_image_counted ''CheMed123'' (image_file_name 5)
   \<and> count_of one_image_counted ''CheMed123'' < 1500
   \<and> download_image (Some (provider [])) (text_message 5 jan17) ''CheMed123'' 5 one_image_counted
        = (False, one_image_counted)
   \<and> file_exists one_image_on_disk ''CheMed123'' (image_file_name 5)
   \<and> count_of one_image_on_disk ''CheMed123'' < 1500
   \<and> fst (download_image (Some (provider [])) (photo_message 5 jan17) ''CheMed123'' 5 one_image_on_disk)
   \<and> downloaded_images_count one_image_on_disk ''CheMed123'' = None
   \<and> downloaded_images_count
        (snd (download_image (Some (provider [])) (photo_message 5 jan17) ''CheMed123'' 5 one_image_on_disk))
        ''CheMed123'' = Some 0"
proof -
  have "download_image (Some (provider [])) (text_message 5 jan17) ''CheMed123'' 5 one_image_counted
        = (False, one_image_counted)"
    by (simp add: download_image_def text_message_def)
  moreover have "file_exists one_image_counted ''CheMed123'' (image_file_name 5)
   \<and> count_of one_image_counted ''CheMed123'' < 1500
   \<and> file_exists one_image_on_disk ''CheMed123'' (image_file_name 5)
   \<and> count_of one_image_on_disk ''CheMed123'' < 1500
   \<and> fst (download_image (Some (provider [])) (photo_message 5 jan17) ''CheMed123'' 5 one_image_on_disk)
   \<and> downloaded_images_count one_image_on_disk ''CheMed123'' = None
   \<and> downloaded_images_count
        (snd (download_image (Some (provider [])) (photo_message 5 jan17) ''CheMed123'' 5 one_image_on_disk))
        ''CheMed123'' = Some 0"
    by code_simp
  ultimately show ?thesis by blast
qed

text \<open>
  C5. With the limits loaded by \<open>_load_channel_limits\<close>, whatever the environment,
  \<open>get_config_channel_name\<close> maps "CheMed123", "chemed123" and "ChEmEd123" to the one
  key \<open>CheMed123\<close>, as it does every name whose normalisation contains "chemed" and
  not "lobelia"; \<open>download_image\<close> called under any such name leaves every counter
  but that of \<open>CheMed123\<close> alone. In general, a name that differs from one of the
  three known keys only in casing, spaces, underscores and hyphens resolves to that key.
\<close>

theorem chemed_variants_share_one_key:
  "get_config_channel_name (load_channel_limits parse env dflt) ''CheMed123'' = ''CheMed123''
   \<and> get_config_channel_name (load_channel_limits parse env dflt) ''chemed123'' = ''CheMed123''
   \<and> get_config_channel_name (load_channel_limits parse env dflt) ''ChEmEd123'' = ''CheMed123''
   \<and> (\<forall>name. contains ''chemed'' (normalize_name name) \<and> \<not> contains ''lobelia'' (normalize_name name) \<longrightarrow>
          get_config_channel_name (load_channel_limits parse env dflt) name = ''CheMed123'')
   \<and> (\<forall>name s cl msg mid k.
          channel_max_images s = load_channel_limits parse env dflt
          \<and> get_config_channel_name (load_channel_limits parse env dflt) name = ''CheMed123''
          \<and> k \<noteq> ''CheMed123'' \<longrightarrow>
          downloaded_images_count (snd (download_image cl msg name mid s)) k = downloaded_images_count s k)
   \<and> (\<forall>key name. key \<in> set known_channel_names \<and> normalize_name name = normalize_name key \<longrightarrow>
          get_config_channel_name (load_channel_limits parse env dflt) name = key)"
proof (intro conjI allI impI)
  fix name :: string and s :: scraper and cl :: "client option" and msg :: raw_message and mid :: int and k :: string
  assume a: "channel_max_images s = load_channel_limits parse env dflt
          \<and> get_config_channel_name (load_channel_limits parse env dflt) name = ''CheMed123''
          \<and> k \<noteq> ''CheMed123''"
  then have "k \<noteq> get_config_channel_name (channel_max_images s) name"
    by simp
  then show "downloaded_images_count (snd (download_image cl msg name mid s)) k = downloaded_images_count s k"
    by (rule download_image_other_counters)
next
  fix name
  assume "contains ''chemed'' (normalize_name name) \<and> \<not> contains ''lobelia'' (normalize_name name)"
  then show "get_config_channel_name (load_channel_limits parse env dflt) name = ''CheMed123''"
    by (simp add: chemed_names)
next
  fix key name :: string
  assume "key \<in> set known_channel_names \<and> normalize_name name = normalize_name key"
  then show "get_config_channel_name (load_channel_limits parse env dflt) name = key"
    by (simp add: variant_resolves_to_key)
qed (rule chemed_examples)+

theorem chemed_variants_share_one_key_witness:
  "contains ''chemed'' (normalize_name ''Che Med-123'')
   \<and> \<not> contains ''lobelia'' (normalize_name ''Che Med-123'')
   \<and> get_config_channel_name default_limits ''Che Med-123'' = ''CheMed123''
   \<and> get_config_channel_name default_limits ''chemed123'' = ''CheMed123''
   \<and> channel_max_images one_image_counted = default_limits
   \<and> ''tikvahpharma'' \<noteq> ''CheMed123''
   \<and> downloaded_images_count
        (snd (download_image (Some (provider [])) (photo_message 6 jan17) ''chemed123'' 6 one_image_counted))
        ''tikvahpharma'' = downloaded_images_count one_image_counted ''tikvahpharma''
   \<and> ''tikvahpharma'' \<in> set known_channel_names
   \<and> normalize_name ''Tikvah_Pharma'' = normalize_name ''tikvahpharma''
   \<and> get_config_channel_name default_limits ''Tikvah_Pharma'' = ''tikvahpharma''
   \<and> downloaded_images_count one_image_counted ''CheMed123'' = Some 1
   \<and> downloaded_images_count
        (snd (download_image (Some (provider [])) (photo_message 7 jan17) ''chemed123'' 7
           (snd (download_image (Some (provider [])) (photo_message 6 jan17) ''ChEmEd123'' 6
                   one_image_counted))))
        ''CheMed123'' = Some 3"
proof -
  note t = chemed_variants_share_one_key [of "\<lambda>_. None" Map.empty 1500, folded default_limits_def]
  have c: "contains ''chemed'' (normalize_name ''Che Med-123'')
     \<and> \<not> contains ''lobelia'' (normalize_name ''Che Med-123'')"
    by code_simp
  have l: "channel_max_images one_image_counted = default_limits"
    by code_simp
  have n: "''tikvahpharma'' \<noteq> ''CheMed123''" by simp
  note k = t [THEN conjunct2, THEN conjunct1]
  note v = t [THEN conjunct2, THEN conjunct2, THEN conjunct2, THEN conjunct1, rule_format, OF c]
  note f = t [THEN conjunct2, THEN conjunct2, THEN conjunct2, THEN conjunct2, THEN conjunct1, rule_format,
      OF conjI [OF l conjI [OF k n]],
      of "Some (provider [])" "photo_message 6 jan17" 6]
  have two: "downloaded_images_count one_image_counted ''CheMed123'' = Some 1"
    "downloaded_images_count
        (snd (download_image (Some (provider [])) (photo_message 7 jan17) ''chemed123'' 7
           (snd (download_image (Some (provider [])) (photo_message 6 jan17) ''ChEmEd123'' 6
                   one_image_counted))))
        ''CheMed123'' = Some 3"
    by code_simp+
  have m: "''tikvahpharma'' \<in> set known_channel_names"
    by (simp add: known_channel_names_def)
  have e: "normalize_name ''Tikvah_Pharma'' = normalize_name ''tikvahpharma''"
    by code_simp
  note g = t [THEN conjunct2, THEN conjunct2, THEN conjunct2, THEN conjunct2, THEN conjunct2, rule_format,
      OF conjI [OF m e]]
  show ?thesis
    by (intro conjI c [THEN conjunct1] c [THEN conjunct2] v k l n f m e g two)
qed

section \<open>Properties of the channel iteration\<close>

lemma download_image_frame:
  "channel_max_images (snd (download_image cl msg chan mid s)) = channel_max_images s"
  "default_max_images (snd (download_image cl msg chan mid s)) = default_max_images s"
  "partitions (snd (download_image cl msg chan mid s)) = partitions s"
  "scraped_channels (snd (download_image cl msg chan mid s)) = scraped_channels s"
  "scraped_dates (snd (download_image cl msg chan mid s)) = scraped_dates s"
  "sleeps (snd (download_image cl msg chan mid s)) = sleeps s"
  by (auto simp: download_image_def Let_def logged_def mkdir_def write_file_def
        split: option.splits sum.splits if_splits)

lemma extract_message_data_Some:
  "\<exists>md. extract_message_data now msg chan = Some md
     \<and> message_id md = raw_id msg \<and> channel_name md = chan \<and> message_date md = raw_date msg
     \<and> has_media md = (raw_media msg \<noteq> NoMedia)
     \<and> image_path md = (if raw_media msg = MessageMediaPhoto
                         then Some (''data/raw/images/'' @ chan @ ''/'' @ image_file_name (raw_id msg))
                         else None)"
  by (simp add: extract_message_data_def)

lemma process_message_eq:
  assumes "extract_message_data now msg chan = Some md"
  shows "process_message cl now chan msg (msgs, s) =
     (None, msgs @ [md],
      sleep PacingDelay (if raw_media msg = MessageMediaPhoto
                         then snd (download_image cl msg chan (raw_id msg) s) else s))"
proof -
  from assms have "message_id md = raw_id msg"
    and "has_media md \<and> image_path md \<noteq> None \<longleftrightarrow> raw_media msg = MessageMediaPhoto"
    by (auto simp: extract_message_data_def split: if_splits)
  with assms show ?thesis
    by (simp add: process_message_def split: prod.splits)
qed

lemma process_message_never_raises: "fst (process_message cl now chan msg acc) = None"
proof -
  obtain msgs s where acc: "acc = (msgs, s)" by (cases acc)
  obtain md where "extract_message_data now msg chan = Some md"
    using extract_message_data_Some by blast
  then show ?thesis
    unfolding acc by (simp add: process_message_eq)
qed

lemma iterate_messages_Yield:
  assumes "extract_message_data now msg chan = Some md"
  shows "iterate_messages cl now chan (Yield msg # rest) (msgs, s) =
     iterate_messages cl now chan rest
       (msgs @ [md],
        sleep PacingDelay (if raw_media msg = MessageMediaPhoto
                           then snd (download_image cl msg chan (raw_id msg) s) else s))"
  by (simp add: process_message_eq [OF assms])


lemma sleep_frame:
  "channel_max_images (sleep p s) = channel_max_images s"
  "default_max_images (sleep p s) = default_max_images s"
  "image_dirs (sleep p s) = image_dirs s"
  "media_requests (sleep p s) = media_requests s"
  "downloaded_images_count (sleep p s) = downloaded_images_count s"
  "count_of (sleep p s) k = count_of s k"
  by (simp_all add: sleep_def count_of_def)

lemma iterate_messages_exhausted:
  assumes "get_max_images_for_channel (channel_max_images s) (default_max_images s) chan = Inr M"
    and "count_of s (get_config_channel_name (channel_max_images s) chan) \<ge> M"
  shows "image_dirs (snd (snd (iterate_messages cl now chan events (msgs, s)))) = image_dirs s
       \<and> media_requests (snd (snd (iterate_messages cl now chan events (msgs, s)))) = media_requests s
       \<and> (\<forall>k. count_of (snd (snd (iterate_messages cl now chan events (msgs, s)))) k = count_of s k)"
  using assms
proof (induction events arbitrary: msgs s)
  case Nil
  then show ?case by simp
next
  case (Cons ev events)
  show ?case
  proof (cases ev)
    case (Raise e)
    then show ?thesis by simp
  next
    case (Yield msg)
    obtain md where md: "extract_message_data now msg chan = Some md"
      using extract_message_data_Some by blast
    let ?s1 = "sleep PacingDelay (if raw_media msg = MessageMediaPhoto
                           then snd (download_image cl msg chan (raw_id msg) s) else s)"
    have f: "channel_max_images ?s1 = channel_max_images s" "default_max_images ?s1 = default_max_images s"
      by (simp_all add: sleep_frame download_image_frame)
    have i: "image_dirs ?s1 = image_dirs s" "media_requests ?s1 = media_requests s"
      "count_of ?s1 k = count_of s k" for k
      using download_image_exhausted(2,3,5) [OF _ Cons.prems, of msg cl "raw_id msg"]
      by (simp_all add: sleep_frame)
    have q: "get_max_images_for_channel (channel_max_images ?s1) (default_max_images ?s1) chan = Inr M"
      unfolding f by (rule Cons.prems(1))
    have e: "count_of ?s1 (get_config_channel_name (channel_max_images ?s1) chan) \<ge> M"
      unfolding f i by (rule Cons.prems(2))
    from Cons.IH [OF q e, of "msgs @ [md]"] show ?thesis
      unfolding Yield iterate_messages_Yield [OF md] i by simp
  qed
qed

lemma iterate_messages_yields:
  "fst (iterate_messages cl now chan (map Yield raws) (msgs, s)) = None
   \<and> fst (snd (iterate_messages cl now chan (map Yield raws) (msgs, s))) =
       msgs @ List.map_filter (\<lambda>m. extract_message_data now m chan) raws"
proof (induction raws arbitrary: msgs s)
  case Nil
  then show ?case by simp
next
  case (Cons msg raws)
  obtain md where md: "extract_message_data now msg chan = Some md"
    using extract_message_data_Some by blast
  show ?case
    unfolding list.map iterate_messages_Yield [OF md] by (simp add: Cons.IH md)
qed

lemma init_image_counter_frame:
  "channel_max_images (init_image_counter chan cfg M s) = channel_max_images s"
  "default_max_images (init_image_counter chan cfg M s) = default_max_images s"
  "image_dirs (init_image_counter chan cfg M s) = image_dirs s"
  "media_requests (init_image_counter chan cfg M s) = media_requests s"
  by (simp_all add: init_image_counter_def Let_def logged_def)

lemma init_image_counter_seeds:
  "downloaded_images_count s cfg = None \<Longrightarrow>
     downloaded_images_count (init_image_counter chan cfg M s) = (downloaded_images_count s)(cfg \<mapsto> count_existing_images s chan)"
  by (simp add: init_image_counter_def Let_def logged_def)

lemma init_image_counter_known:
  "downloaded_images_count s cfg \<noteq> None \<Longrightarrow>
     downloaded_images_count (init_image_counter chan cfg M s) = downloaded_images_count s"
  by (auto simp: init_image_counter_def Let_def logged_def)

lemma scrape_channel_found:
  assumes "get_entity c u = Inr ent"
    and "get_max_images_for_channel (channel_max_images s) (default_max_images s) (display_name ent u) = Inr M"
  shows "scrape_channel (Some c) now u limit offset_date s =
     (case iterate_messages (Some c) now (display_name ent u) (iter_messages c ent limit offset_date)
             ([], init_image_counter (display_name ent u)
                    (get_config_channel_name (channel_max_images s) (display_name ent u)) M s) of
        (Some e, messages, s') \<Rightarrow> (messages, logged (ErrorScrapingChannel u) s')
      | (None, messages, s') \<Rightarrow>
          (messages, s'\<lparr>scraped_channels := insert (display_name ent u) (scraped_channels s')\<rparr>))"
  using assms by (simp add: scrape_channel_def Let_def)

lemma scrape_channel_exhausted:
  assumes ent: "get_entity c u = Inr ent"
    and q: "get_max_images_for_channel (channel_max_images s) (default_max_images s) (display_name ent u) = Inr M"
    and n: "downloaded_images_count s (get_config_channel_name (channel_max_images s) (display_name ent u)) = None"
    and e: "count_existing_images s (display_name ent u) \<ge> M"
  shows "image_dirs (snd (scrape_channel (Some c) now u limit offset_date s)) = image_dirs s
     \<and> media_requests (snd (scrape_channel (Some c) now u limit offset_date s)) = media_requests s
     \<and> count_of (snd (scrape_channel (Some c) now u limit offset_date s))
          (get_config_channel_name (channel_max_images s) (display_name ent u)) =
        count_existing_images s (display_name ent u)"
proof -
  let ?chan = "display_name ent u"
  let ?cfg = "get_config_channel_name (channel_max_images s) ?chan"
  let ?s1 = "init_image_counter ?chan ?cfg M s"
  have c1: "count_of ?s1 ?cfg = count_existing_images s ?chan"
    by (simp add: count_of_def init_image_counter_seeds [OF n])
  have q1: "get_max_images_for_channel (channel_max_images ?s1) (default_max_images ?s1) ?chan = Inr M"
    by (simp add: init_image_counter_frame q)
  have e1: "count_of ?s1 (get_config_channel_name (channel_max_images ?s1) ?chan) \<ge> M"
    by (simp add: init_image_counter_frame c1 e)
  obtain ex msgs s' where r: "iterate_messages (Some c) now ?chan (iter_messages c ent limit offset_date) ([], ?s1) = (ex, msgs, s')"
    by (metis prod_cases3)
  from iterate_messages_exhausted [OF q1 e1, of "Some c" now "iter_messages c ent limit offset_date" "[]"] r
  have "image_dirs s' = image_dirs s \<and> media_requests s' = media_requests s \<and> count_of s' ?cfg = count_of ?s1 ?cfg"
    by (simp add: init_image_counter_frame)
  then show ?thesis
    unfolding scrape_channel_found [OF ent q] r c1
    by (cases ex) (simp_all add: logged_def count_of_def)
qed

lemma download_image_count_bounds:
  assumes "get_max_images_for_channel (channel_max_images s) (default_max_images s) chan = Inr M"
  shows "count_of s k \<le> count_of (snd (download_image cl msg chan mid s)) k"
    and "count_of (snd (download_image cl msg chan mid s)) (get_config_channel_name (channel_max_images s) chan)
           \<le> max (count_of s (get_config_channel_name (channel_max_images s) chan)) M"
  using assms
  by (auto simp: download_image_def Let_def logged_def mkdir_def write_file_def count_of_def
        split: option.splits if_splits)

lemma iterate_messages_count_bounds:
  assumes "get_max_images_for_channel (channel_max_images s) (default_max_images s) chan = Inr M"
  shows "channel_max_images (snd (snd (iterate_messages cl now chan events (msgs, s)))) = channel_max_images s
       \<and> default_max_images (snd (snd (iterate_messages cl now chan events (msgs, s)))) = default_max_images s
       \<and> count_of s (get_config_channel_name (channel_max_images s) chan)
           \<le> count_of (snd (snd (iterate_messages cl now chan events (msgs, s))))
                (get_config_channel_name (channel_max_images s) chan)
       \<and> count_of (snd (snd (iterate_messages cl now chan events (msgs, s))))
            (get_config_channel_name (channel_max_images s) chan)
           \<le> max (count_of s (get_config_channel_name (channel_max_images s) chan)) M"
  using assms
proof (induction events arbitrary: msgs s)
  case Nil
  then show ?case by simp
next
  case (Cons ev events)
  show ?case
  proof (cases ev)
    case (Raise e)
    then show ?thesis by simp
  next
    case (Yield msg)
    obtain md where md: "extract_message_data now msg chan = Some md"
      using extract_message_data_Some by blast
    let ?cfg = "get_config_channel_name (channel_max_images s) chan"
    let ?s1 = "sleep PacingDelay (if raw_media msg = MessageMediaPhoto
                           then snd (download_image cl msg chan (raw_id msg) s) else s)"
    have f: "channel_max_images ?s1 = channel_max_images s" "default_max_images ?s1 = default_max_images s"
      by (simp_all add: sleep_frame download_image_frame)
    have lo: "count_of s ?cfg \<le> count_of ?s1 ?cfg"
      using download_image_count_bounds(1) [OF Cons.prems, of ?cfg cl msg "raw_id msg"]
      by (simp add: sleep_frame)
    have hi: "count_of ?s1 ?cfg \<le> max (count_of s ?cfg) M"
      using download_image_count_bounds(2) [OF Cons.prems, of cl msg "raw_id msg"]
      by (simp add: sleep_frame)
    have q: "get_max_images_for_channel (channel_max_images ?s1) (default_max_images ?s1) chan = Inr M"
      unfolding f by (rule Cons.prems)
    note ih = Cons.IH [OF q, of "msgs @ [md]", unfolded f]
    from ih lo hi show ?thesis
      unfolding Yield iterate_messages_Yield [OF md] by auto
  qed
qed

lemma scrape_channel_count_bounds:
  assumes ent: "get_entity c u = Inr ent"
    and q: "get_max_images_for_channel (channel_max_images s) (default_max_images s) (display_name ent u) = Inr M"
    and n: "downloaded_images_count s (get_config_channel_name (channel_max_images s) (display_name ent u)) = None"
  shows "count_existing_images s (display_name ent u)
           \<le> count_of (snd (scrape_channel (Some c) now u limit offset_date s))
                (get_config_channel_name (channel_max_images s) (display_name ent u))
     \<and> count_of (snd (scrape_channel (Some c) now u limit offset_date s))
          (get_config_channel_name (channel_max_images s) (display_name ent u))
           \<le> max (count_existing_images s (display_name ent u)) M"
proof -
  let ?chan = "display_name ent u"
  let ?cfg = "get_config_channel_name (channel_max_images s) ?chan"
  let ?s1 = "init_image_counter ?chan ?cfg M s"
  have c1: "count_of ?s1 ?cfg = count_existing_images s ?chan"
    by (simp add: count_of_def init_image_counter_seeds [OF n])
  have q1: "get_max_images_for_channel (channel_max_images ?s1) (default_max_images ?s1) ?chan = Inr M"
    by (simp add: init_image_counter_frame q)
  obtain ex msgs s' where r: "iterate_messages (Some c) now ?chan (iter_messages c ent limit offset_date) ([], ?s1) = (ex, msgs, s')"
    by (metis prod_cases3)
  from iterate_messages_count_bounds [OF q1, of "Some c" now "iter_messages c ent limit offset_date" "[]"] r
  have "count_of ?s1 ?cfg \<le> count_of s' ?cfg \<and> count_of s' ?cfg \<le> max (count_of ?s1 ?cfg) M"
    by (simp add: init_image_counter_frame)
  then show ?thesis
    unfolding scrape_channel_found [OF ent q] r c1
    by (cases ex) (simp_all add: logged_def count_of_def)
qed

lemma download_image_seeds_zero:
  assumes "raw_media msg = MessageMediaPhoto"
    and "downloaded_images_count s (get_config_channel_name (channel_max_images s) chan) = None"
  shows "downloaded_images_count (snd (download_image cl msg chan mid s))
           (get_config_channel_name (channel_max_images s) chan) = Some 0
       \<or> downloaded_images_count (snd (download_image cl msg chan mid s))
           (get_config_channel_name (channel_max_images s) chan) = Some 1"
  using assms
  by (auto simp: download_image_def Let_def logged_def mkdir_def write_file_def count_of_def
        get_max_images_for_channel_Inr split: option.splits if_splits)

text \<open>
  C2 (as amended). The counter of a channel is seeded by \<open>scrape_channel\<close>, not by
  \<open>download_image\<close>: when \<open>scrape_channel\<close> meets a channel that has no counter yet,
  it sets the counter to the number N of \<open>.jpg\<close> files in the channel's image
  directory before it iterates; at the end of the scrape the counter lies between N and
  the larger of N and M, and where N has reached the quota M already the whole scrape
  requests and writes no image. \<open>download_image\<close> itself starts a missing
  counter at 0. For a message with a photo, \<open>download_image\<close> downloads and
  increments the counter by one while the counter is below M (the file being absent and
  the provider delivering), and returns \<open>False\<close>, leaving counter and files as they are,
  once the counter has reached M.
\<close>

theorem quota_seeded_when_channel_first_met:
  assumes q: "get_max_images_for_channel (channel_max_images s) (default_max_images s) chan = Inr max_images"
  shows "(downloaded_images_count s (get_config_channel_name (channel_max_images s) chan) = None \<longrightarrow>
            downloaded_images_count
              (init_image_counter chan (get_config_channel_name (channel_max_images s) chan) max_images s)
              (get_config_channel_name (channel_max_images s) chan) = Some (count_existing_images s chan))
       \<and> (\<forall>c u ent limit offset_date.
             get_entity c u = Inr ent \<and> display_name ent u = chan
             \<and> downloaded_images_count s (get_config_channel_name (channel_max_images s) chan) = None
             \<and> max_images \<le> count_existing_images s chan \<longrightarrow>
               image_dirs (snd (scrape_channel (Some c) now u limit offset_date s)) = image_dirs s
             \<and> media_requests (snd (scrape_channel (Some c) now u limit offset_date s)) = media_requests s
             \<and> count_of (snd (scrape_channel (Some c) now u limit offset_date s))
                  (get_config_channel_name (channel_max_images s) chan) = count_existing_images s chan)
       \<and> (raw_media msg = MessageMediaPhoto \<longrightarrow>
            (downloaded_images_count s (get_config_channel_name (channel_max_images s) chan) = None \<longrightarrow>
               downloaded_images_count (snd (download_image cl msg chan mid s))
                 (get_config_channel_name (channel_max_images s) chan) = Some 0
             \<or> downloaded_images_count (snd (download_image cl msg chan mid s))
                 (get_config_channel_name (channel_max_images s) chan) = Some 1)
          \<and> (count_of s (get_config_channel_name (channel_max_images s) chan) < max_images
              \<and> \<not> file_exists s chan (image_file_name mid)
              \<and> (\<exists>c. cl = Some c \<and> download_media c msg = None) \<longrightarrow>
                 fst (download_image cl msg chan mid s)
               \<and> count_of (snd (download_image cl msg chan mid s))
                    (get_config_channel_name (channel_max_images s) chan) =
                  count_of s (get_config_channel_name (channel_max_images s) chan) + 1
               \<and> file_exists (snd (download_image cl msg chan mid s)) chan (image_file_name mid))
          \<and> (max_images \<le> count_of s (get_config_channel_name (channel_max_images s) chan) \<longrightarrow>
                 \<not> fst (download_image cl msg chan mid s)
               \<and> count_of (snd (download_image cl msg chan mid s))
                    (get_config_channel_name (channel_max_images s) chan) =
                  count_of s (get_config_channel_name (channel_max_images s) chan)
               \<and> image_dirs (snd (download_image cl msg chan mid s)) = image_dirs s
               \<and> media_requests (snd (download_image cl msg chan mid s)) = media_requests s))
       \<and> (\<forall>c u ent limit offset_date.
             get_entity c u = Inr ent \<and> display_name ent u = chan
             \<and> downloaded_images_count s (get_config_channel_name (channel_max_images s) chan) = None \<longrightarrow>
               count_existing_images s chan
                 \<le> count_of (snd (scrape_channel (Some c) now u limit offset_date s))
                      (get_config_channel_name (channel_max_images s) chan)
             \<and> count_of (snd (scrape_channel (Some c) now u limit offset_date s))
                  (get_config_channel_name (channel_max_images s) chan)
                 \<le> max (count_existing_images s chan) max_images)"
proof (intro conjI impI allI)
  assume "downloaded_images_count s (get_config_channel_name (channel_max_images s) chan) = None"
  then show "downloaded_images_count
              (init_image_counter chan (get_config_channel_name (channel_max_images s) chan) max_images s)
              (get_config_channel_name (channel_max_images s) chan) = Some (count_existing_images s chan)"
    by (simp add: init_image_counter_seeds)
next
  fix c :: client and u :: string and ent :: entity and limit :: "int option" and offset_date :: "datetime option"
  assume a: "get_entity c u = Inr ent \<and> display_name ent u = chan
             \<and> downloaded_images_count s (get_config_channel_name (channel_max_images s) chan) = None
             \<and> max_images \<le> count_existing_images s chan"
  then have e: "get_entity c u = Inr ent" and d: "chan = display_name ent u" by simp_all
  from a have n: "downloaded_images_count s
                    (get_config_channel_name (channel_max_images s) (display_name ent u)) = None"
    and m: "max_images \<le> count_existing_images s (display_name ent u)"
    unfolding d by simp_all
  from q have q': "get_max_images_for_channel (channel_max_images s) (default_max_images s)
                     (display_name ent u) = Inr max_images"
    unfolding d .
  note r = scrape_channel_exhausted [OF e q' n m, of now limit offset_date]
  from r show "image_dirs (snd (scrape_channel (Some c) now u limit offset_date s)) = image_dirs s"
    by simp
  from r show "media_requests (snd (scrape_channel (Some c) now u limit offset_date s)) = media_requests s"
    by simp
  from r show "count_of (snd (scrape_channel (Some c) now u limit offset_date s))
                  (get_config_channel_name (channel_max_images s) chan) = count_existing_images s chan"
    unfolding d by simp
next
  assume "raw_media msg = MessageMediaPhoto"
    and "downloaded_images_count s (get_config_channel_name (channel_max_images s) chan) = None"
  then show "downloaded_images_count (snd (download_image cl msg chan mid s))
                 (get_config_channel_name (channel_max_images s) chan) = Some 0
             \<or> downloaded_images_count (snd (download_image cl msg chan mid s))
                 (get_config_channel_name (channel_max_images s) chan) = Some 1"
    by (rule download_image_seeds_zero)
next
  assume p: "raw_media msg = MessageMediaPhoto"
    and a: "count_of s (get_config_channel_name (channel_max_images s) chan) < max_images
              \<and> \<not> file_exists s chan (image_file_name mid)
              \<and> (\<exists>c. cl = Some c \<and> download_media c msg = None)"
  then obtain c where c: "cl = Some c" and d: "download_media c msg = None" by blast
  from a have l: "count_of s (get_config_channel_name (channel_max_images s) chan) < max_images"
    and n: "\<not> file_exists s chan (image_file_name mid)" by simp_all
  show "fst (download_image cl msg chan mid s)"
    unfolding c using download_image_fetched(1) [OF p q l n d] by simp
  show "count_of (snd (download_image cl msg chan mid s))
                    (get_config_channel_name (channel_max_images s) chan) =
                  count_of s (get_config_channel_name (channel_max_images s) chan) + 1"
    unfolding c using download_image_fetched(2) [OF p q l n d] by (simp add: count_of_def)
  show "file_exists (snd (download_image cl msg chan mid s)) chan (image_file_name mid)"
    unfolding c by (rule download_image_fetched(3) [OF p q l n d])
next
  assume p: "raw_media msg = MessageMediaPhoto"
    and e: "max_images \<le> count_of s (get_config_channel_name (channel_max_images s) chan)"
  show "\<not> fst (download_image cl msg chan mid s)"
    using download_image_exhausted(1) [OF p q e] by simp
  show "count_of (snd (download_image cl msg chan mid s))
                    (get_config_channel_name (channel_max_images s) chan) =
                  count_of s (get_config_channel_name (channel_max_images s) chan)"
    by (rule download_image_exhausted(5) [OF p q e])
  show "image_dirs (snd (download_image cl msg chan mid s)) = image_dirs s"
    by (rule download_image_exhausted(2) [OF p q e])
  show "media_requests (snd (download_image cl msg chan mid s)) = media_requests s"
    by (rule download_image_exhausted(3) [OF p q e])
next
  fix c :: client and u :: string and ent :: entity and limit :: "int option" and offset_date :: "datetime option"
  assume a: "get_entity c u = Inr ent \<and> display_name ent u = chan
             \<and> downloaded_images_count s (get_config_channel_name (channel_max_images s) chan) = None"
  then have e: "get_entity c u = Inr ent" and d: "chan = display_name ent u" by simp_all
  from a have n: "downloaded_images_count s
                    (get_config_channel_name (channel_max_images s) (display_name ent u)) = None"
    unfolding d by simp
  from q have q': "get_max_images_for_channel (channel_max_images s) (default_max_images s)
                     (display_name ent u) = Inr max_images"
    unfolding d .
  note r = scrape_channel_count_bounds [OF e q' n, of now limit offset_date]
  from r show "count_existing_images s chan
                 \<le> count_of (snd (scrape_channel (Some c) now u limit offset_date s))
                      (get_config_channel_name (channel_max_images s) chan)"
    unfolding d by simp
  from r show "count_of (snd (scrape_channel (Some c) now u limit offset_date s))
                  (get_config_channel_name (channel_max_images s) chan)
                 \<le> max (count_existing_images s chan) max_images"
    unfolding d by simp
qed

theorem quota_seeded_when_channel_first_met_witness:
  "get_max_images_for_channel (channel_max_images two_images_quota_two)
      (default_max_images two_images_quota_two) ''CheMed123'' = Inr 2
   \<and> downloaded_images_count two_images_quota_two ''CheMed123'' = None
   \<and> count_existing_images two_images_quota_two ''CheMed123'' = 2
   \<and> downloaded_images_count
        (init_image_counter ''CheMed123'' ''CheMed123'' 2 two_images_quota_two) ''CheMed123'' = Some 2
   \<and> image_dirs (snd (scrape_channel (Some (provider [Yield (photo_message 3 jan17)])) jan18
                        ''CheMed123'' None None two_images_quota_two)) = image_dirs two_images_quota_two
   \<and> media_requests (snd (scrape_channel (Some (provider [Yield (photo_message 3 jan17)])) jan18
                        ''CheMed123'' None None two_images_quota_two)) = media_requests two_images_quota_two
   \<and> count_of one_image_counted ''CheMed123'' = 1
   \<and> \<not> file_exists one_image_counted ''CheMed123'' (image_file_name 6)
   \<and> fst (download_image (Some (provider [])) (photo_message 6 jan17) ''CheMed123'' 6 one_image_counted)
   \<and> count_of (snd (download_image (Some (provider [])) (photo_message 6 jan17) ''CheMed123'' 6
                      one_image_counted)) ''CheMed123'' = 1 + 1"
proof -
  have q2: "get_max_images_for_channel (channel_max_images two_images_quota_two)
      (default_max_images two_images_quota_two) ''CheMed123'' = Inr 2"
    by code_simp
  have k2: "get_config_channel_name (channel_max_images two_images_quota_two) ''CheMed123'' = ''CheMed123''"
    by code_simp
  have n2: "downloaded_images_count two_images_quota_two ''CheMed123'' = None"
    by code_simp
  have e2: "count_existing_images two_images_quota_two ''CheMed123'' = 2"
    by code_simp
  have g: "get_entity (provider [Yield (photo_message 3 jan17)]) ''CheMed123'' =
             Inr \<lparr>title = None, username = ''CheMed123''\<rparr>"
    by (simp add: provider_def)
  have d: "display_name \<lparr>title = None, username = ''CheMed123''\<rparr> ''CheMed123'' = ''CheMed123''"
    by (simp add: display_name_def)
  have le: "(2::int) \<le> 2" by simp
  note t2 = quota_seeded_when_channel_first_met [OF q2, unfolded k2 e2, where now = jan18]
  note seed = t2 [THEN conjunct1, rule_format, OF n2]
  note scr = t2 [THEN conjunct2, THEN conjunct1, rule_format,
      OF conjI [OF g conjI [OF d conjI [OF n2 le]]], of None None]
  have q1: "get_max_images_for_channel (channel_max_images one_image_counted)
        (default_max_images one_image_counted) ''CheMed123'' = Inr 1500"
    by code_simp
  have k1: "get_config_channel_name (channel_max_images one_image_counted) ''CheMed123'' = ''CheMed123''"
    by code_simp
  have c1: "count_of one_image_counted ''CheMed123'' = 1"
    by code_simp
  have f6: "\<not> file_exists one_image_counted ''CheMed123'' (image_file_name 6)"
    by code_simp
  have p6: "raw_media (photo_message 6 jan17) = MessageMediaPhoto"
    by (simp add: photo_message_def)
  have d6: "\<exists>c. Some (provider []) = Some c \<and> download_media c (photo_message 6 jan17) = None"
    by (simp add: provider_def)
  have lt: "(1::int) < 1500" by simp
  note t1 = quota_seeded_when_channel_first_met [OF q1, unfolded k1 c1,
      where msg = "photo_message 6 jan17" and mid = 6 and cl = "Some (provider [])"]
  note dl = t1 [THEN conjunct2, THEN conjunct2, THEN conjunct1, rule_format, OF p6, THEN conjunct2, THEN conjunct1,
      rule_format, OF conjI [OF lt conjI [OF f6 d6]]]
  show ?thesis
    by (intro conjI q2 n2 e2 seed scr [THEN conjunct1] scr [THEN conjunct2, THEN conjunct1] c1 f6
          dl [THEN conjunct1] dl [THEN conjunct2, THEN conjunct1])
qed

text \<open>
  The claim as stated fails: on a new scraper with two \<open>.jpg\<close> files on disk and a
  quota of two, the first call of \<open>download_image\<close> starts the counter at 0, downloads
  the image and leaves the counter at 1.
\<close>

theorem download_image_seeds_zero_counterexample:
  "downloaded_images_count two_images_quota_two ''CheMed123'' = None
   \<and> count_existing_images two_images_quota_two ''CheMed123'' = 2
   \<and> get_max_images_for_channel (channel_max_images two_images_quota_two)
        (default_max_images two_images_quota_two) ''CheMed123'' = Inr 2
   \<and> fst (download_image (Some (provider [])) (photo_message 3 jan17) ''CheMed123'' 3 two_images_quota_two)
   \<and> downloaded_images_count
        (snd (download_image (Some (provider [])) (photo_message 3 jan17) ''CheMed123'' 3 two_images_quota_two))
        ''CheMed123'' = Some 1
   \<and> file_exists
        (snd (download_image (Some (provider [])) (photo_message 3 jan17) ''CheMed123'' 3 two_images_quota_two))
        ''CheMed123'' (image_file_name 3)"
  by code_simp

lemma iterate_messages_raise:
  "iterate_messages cl now chan (map Yield before @ Raise e # rest) acc =
     (Some e, snd (iterate_messages cl now chan (map Yield before) acc))"
proof (induction before arbitrary: acc)
  case Nil
  then show ?case by simp
next
  case (Cons msg before)
  obtain msgs s where acc: "acc = (msgs, s)" by (cases acc)
  obtain md where md: "extract_message_data now msg chan = Some md"
    using extract_message_data_Some by blast
  show ?case
    unfolding acc list.map append_Cons iterate_messages_Yield [OF md] by (rule Cons.IH)
qed

text \<open>
  C7 (the code at the failing input). The body of the loop never lets an exception out,
  so neither handler of the loop runs. A flood wait raised by the iterator ends the
  iteration: the messages after it are not processed. In the example the scrape returns
  the first message only, sleeps the pacing delay once and never the three seconds, logs
  the error of a failed channel and does not mark the channel as scraped.
\<close>

theorem flood_wait_from_iterator_ends_the_scrape:
  "fst (process_message cl now chan msg acc) = None
   \<and> iterate_messages cl now chan (map Yield before @ Raise (FloodWaitError seconds) # rest) acc =
       (Some (FloodWaitError seconds), snd (iterate_messages cl now chan (map Yield before) acc))
   \<and> fst (scrape_channel (Some (provider flood_wait_events)) jan18 ''CheMed123'' None None
            (scraper_with_files Map.empty)) = [record_of (photo_message 1 jan17)]
   \<and> sleeps (snd (scrape_channel (Some (provider flood_wait_events)) jan18 ''CheMed123'' None None
            (scraper_with_files Map.empty))) = [PacingDelay]
   \<and> log_records (snd (scrape_channel (Some (provider flood_wait_events)) jan18 ''CheMed123'' None None
            (scraper_with_files Map.empty))) = [ErrorScrapingChannel ''CheMed123'']
   \<and> scraped_channels (snd (scrape_channel (Some (provider flood_wait_events)) jan18 ''CheMed123'' None None
            (scraper_with_files Map.empty))) = {}"
proof -
  have "fst (scrape_channel (Some (provider flood_wait_events)) jan18 ''CheMed123'' None None
            (scraper_with_files Map.empty)) = [record_of (photo_message 1 jan17)]
   \<and> sleeps (snd (scrape_channel (Some (provider flood_wait_events)) jan18 ''CheMed123'' None None
            (scraper_with_files Map.empty))) = [PacingDelay]
   \<and> log_records (snd (scrape_channel (Some (provider flood_wait_events)) jan18 ''CheMed123'' None None
            (scraper_with_files Map.empty))) = [ErrorScrapingChannel ''CheMed123'']
   \<and> scraped_channels (snd (scrape_channel (Some (provider flood_wait_events)) jan18 ''CheMed123'' None None
            (scraper_with_files Map.empty))) = {}"
    by code_simp
  then show ?thesis
    using process_message_never_raises iterate_messages_raise by blast
qed

section \<open>Properties of the partitioned writer\<close>

subsection \<open>Lists and the merge\<close>



lemma new_ids:
  "set (map f (filter (\<lambda>y. f y \<notin> set (map f xs)) ys)) = set (map f ys) - set (map f xs)"
  by (induction ys) auto

lemma merge_prefix: "prefix existing (merge_messages existing messages)"
  by (simp add: merge_messages_def)

lemma merge_ids:
  "set (map message_id (merge_messages existing messages)) =
     set (map message_id existing) \<union> set (map message_id messages)"
  unfolding merge_messages_def Let_def map_append set_append new_ids by blast



subsection \<open>One call of the writer\<close>

lemma save_partitions:
  "messages \<noteq> [] \<Longrightarrow>
   partitions (save_messages_to_json now messages chan date s) =
     (partitions s)
       ((strftime_ymd (case date of None \<Rightarrow> now | Some d \<Rightarrow> d), safe_channel_name chan) \<mapsto>
          Json (merge_messages
                  (fst (load_existing_data
                          (strftime_ymd (case date of None \<Rightarrow> now | Some d \<Rightarrow> d), safe_channel_name chan) s))
                  messages))"
  by (auto simp: save_messages_to_json_def load_existing_data_def logged_def Let_def
           split: option.splits file_content.splits)

lemma save_scraped_dates:
  "messages \<noteq> [] \<Longrightarrow>
   scraped_dates (save_messages_to_json now messages chan date s) =
     insert (strftime_ymd (case date of None \<Rightarrow> now | Some d \<Rightarrow> d)) (scraped_dates s)"
  by (auto simp: save_messages_to_json_def load_existing_data_def logged_def Let_def
           split: option.splits file_content.splits)


text \<open>
  C10. Called with an empty list of messages, \<open>save_messages_to_json\<close> logs one warning
  and returns: no partition file is created or modified, the date is not added to
  \<open>scraped_dates\<close>, and no other field of the scraper changes, whatever the channel
  name and the date argument are.
\<close>

theorem save_empty_list_changes_nothing:
  "save_messages_to_json now [] chan date s = s\<lparr>log_records := log_records s @ [NoMessagesToSave chan]\<rparr>
   \<and> partitions (save_messages_to_json now [] chan date s) = partitions s
   \<and> scraped_dates (save_messages_to_json now [] chan date s) = scraped_dates s"
  by (simp add: save_messages_to_json_def logged_def)






subsection \<open>Grouping by date\<close>

lemma strftime_strptime: "strftime_ymd (strptime_ymd d) = d"
  by (cases d) (simp add: strftime_ymd_def strptime_ymd_def)

lemma existing_data_partitions:
  "fst (load_existing_data k s) = (case partitions s k of Some (Json ms) \<Rightarrow> ms | _ \<Rightarrow> [])"
  by (simp add: load_existing_data_def split: option.splits file_content.splits)

lemma map_fst_append_to_group:
  "map fst (append_to_group k m g) = (if k \<in> set (map fst g) then map fst g else map fst g @ [k])"
  by (auto simp: append_to_group_def Let_def comp_def case_prod_beta intro!: map_cong)

lemma map_of_map_keyed:
  "map_of (map (\<lambda>(k, v). if k = a then (k, h v) else (k, v)) g) d =
     (if d = a then map_option h (map_of g d) else map_of g d)"
  by (induction g) auto

lemma map_of_append_to_group:
  "map_of (append_to_group k m g) d =
     (if d = k then Some ((case map_of g k of Some ms \<Rightarrow> ms | None \<Rightarrow> []) @ [m]) else map_of g d)"
proof (cases "k \<in> set (map fst g)")
  case True
  then obtain ms where "map_of g k = Some ms"
    by (metis map_of_eq_None_iff not_Some_eq set_map)
  with True show ?thesis
    by (simp add: append_to_group_def map_of_map_keyed)
next
  case False
  then have "map_of g k = None"
    by (simp add: map_of_eq_None_iff)
  with False show ?thesis
    by (simp add: append_to_group_def map_of_map_keyed map_add_def split: option.splits)
qed

lemma distinct_append_to_group:
  "distinct (map fst g) \<Longrightarrow> distinct (map fst (append_to_group k m g))"
  by (simp add: map_fst_append_to_group)

lemma keys_append_to_group: "fst ` set (append_to_group k m g) = insert k (fst ` set g)"
  unfolding set_map [symmetric] map_fst_append_to_group by auto

lemma group_by_date_key_set:
  "fst ` set (group_by_date now msgs g) = fst ` set g \<union> date_key now ` set msgs"
  by (induction msgs arbitrary: g) (simp_all add: keys_append_to_group)

lemma group_by_date_keys:
  "distinct (map fst g) \<Longrightarrow> distinct (map fst (group_by_date now msgs g))"
  by (induction msgs arbitrary: g) (simp_all add: distinct_append_to_group)

lemma map_of_group_by_date:
  "map_of (group_by_date now msgs g) d =
     (if d \<in> set (map (date_key now) msgs) \<or> map_of g d \<noteq> None
      then Some ((case map_of g d of Some ms \<Rightarrow> ms | None \<Rightarrow> []) @ filter (\<lambda>m. date_key now m = d) msgs)
      else None)"
proof (induction msgs arbitrary: g)
  case Nil
  then show ?case by (auto split: option.splits)
next
  case (Cons m msgs)
  show ?case
    by (simp add: Cons.IH map_of_append_to_group)
qed

lemma save_groups_partitions:
  assumes "distinct (map fst gs)" and "\<forall>(d, ms) \<in> set gs. ms \<noteq> []"
  shows "partitions (save_groups now chan gs s) (d, c) =
           (if c = safe_channel_name chan
            then (case map_of gs d of
                    Some ms \<Rightarrow> Some (Json (merge_messages (fst (load_existing_data (d, c) s)) ms))
                  | None \<Rightarrow> partitions s (d, c))
            else partitions s (d, c))"
  using assms
proof (induction gs arbitrary: s)
  case Nil
  then show ?case by simp
next
  case (Cons g gs)
  obtain d0 ms0 where g: "g = (d0, ms0)" by (cases g)
  from Cons.prems g have ne: "ms0 \<noteq> []" and d0: "map_of gs d0 = None"
    and dist: "distinct (map fst gs)" and all: "\<forall>(d, ms) \<in> set gs. ms \<noteq> []"
    by (auto simp: map_of_eq_None_iff)
  show ?case
    unfolding g save_groups.simps
    using d0
    by (simp add: Cons.IH [OF dist all] save_partitions [OF ne] strftime_strptime existing_data_partitions
          split: option.splits)
qed

lemma save_groups_scraped_dates:
  assumes "\<forall>(d, ms) \<in> set gs. ms \<noteq> []"
  shows "scraped_dates (save_groups now chan gs s) = scraped_dates s \<union> set (map fst gs)"
  using assms
proof (induction gs arbitrary: s)
  case Nil
  then show ?case by simp
next
  case (Cons g gs)
  obtain d0 ms0 where g: "g = (d0, ms0)" by (cases g)
  from Cons.prems g have ne: "ms0 \<noteq> []" and all: "\<forall>(d, ms) \<in> set gs. ms \<noteq> []"
    by auto
  show ?case
    unfolding g save_groups.simps
    by (simp add: Cons.IH [OF all] save_scraped_dates [OF ne] strftime_strptime)
qed

lemma groups_nonempty:
  "\<forall>(d, ms) \<in> set (group_by_date now msgs []). ms \<noteq> []"
proof -
  have "ms \<noteq> []" if "(d, ms) \<in> set (group_by_date now msgs [])" for d ms
  proof -
    have "distinct (map fst (group_by_date now msgs []))"
      by (rule group_by_date_keys) simp
    with that have "map_of (group_by_date now msgs []) d = Some ms"
      by simp
    then have "d \<in> set (map (date_key now) msgs) \<and> ms = filter (\<lambda>m. date_key now m = d) msgs"
      by (simp add: map_of_group_by_date split: if_splits)
    then show ?thesis
      by (auto simp: filter_empty_conv)
  qed
  then show ?thesis by auto
qed

lemma save_messages_by_date_partitions:
  "partitions (save_messages_by_date now msgs s) (d, c) =
     (if msgs \<noteq> [] \<and> c = safe_channel_name (channel_name (hd msgs)) \<and> d \<in> set (map (date_key now) msgs)
      then Some (Json (merge_messages (fst (load_existing_data (d, c) s)) (filter (\<lambda>m. date_key now m = d) msgs)))
      else partitions s (d, c))"
proof (cases msgs)
  case Nil
  then show ?thesis by (simp add: save_messages_by_date_def)
next
  case (Cons m ms)
  have dist: "distinct (map fst (group_by_date now (m # ms) []))"
    by (rule group_by_date_keys) simp
  have "partitions (save_groups now (channel_name m) (group_by_date now (m # ms) []) s) (d, c) =
     (if c = safe_channel_name (channel_name m) \<and> d \<in> set (map (date_key now) (m # ms))
      then Some (Json (merge_messages (fst (load_existing_data (d, c) s)) (filter (\<lambda>x. date_key now x = d) (m # ms))))
      else partitions s (d, c))"
    unfolding save_groups_partitions [OF dist groups_nonempty] map_of_group_by_date
    by simp
  then show ?thesis
    unfolding Cons by (simp add: save_messages_by_date_def)
qed

lemma save_messages_by_date_scraped_dates:
  "scraped_dates (save_messages_by_date now msgs s) = scraped_dates s \<union> set (map (date_key now) msgs)"
proof (cases msgs)
  case Nil
  then show ?thesis by (simp add: save_messages_by_date_def)
next
  case (Cons m ms)
  have "scraped_dates (save_groups now (channel_name m) (group_by_date now (m # ms) []) s) =
          scraped_dates s \<union> set (map (date_key now) (m # ms))"
    by (simp only: save_groups_scraped_dates [OF groups_nonempty] set_map group_by_date_key_set) simp
  then show ?thesis
    unfolding Cons by (simp add: save_messages_by_date_def)
qed

text \<open>
  C6. The messages of one scrape are grouped by the date text of \<open>message_date\<close>, or
  of the current time where a record has none, and each group is flushed into the
  partition of its date under the channel name of the first record. Where the dates of
  the batch are exactly two, exactly those two partition files are written: each holds
  what it held before followed by the batch records of its date that were not stored
  yet, a file that did not exist holds exactly the batch records of its date, and every
  other file is untouched. Both dates are recorded.
\<close>

theorem two_dates_two_partition_files:
  assumes "set (map (date_key now) messages) = {d1, d2}" and "d1 \<noteq> d2"
  shows "(\<forall>d c. partitions (save_messages_by_date now messages s) (d, c) =
            (if c = safe_channel_name (channel_name (hd messages)) \<and> (d = d1 \<or> d = d2)
             then Some (Json (merge_messages (fst (load_existing_data (d, c) s))
                                (filter (\<lambda>m. date_key now m = d) messages)))
             else partitions s (d, c)))
       \<and> (\<forall>d. (d = d1 \<or> d = d2)
              \<and> partitions s (d, safe_channel_name (channel_name (hd messages))) = None \<longrightarrow>
              partitions (save_messages_by_date now messages s)
                (d, safe_channel_name (channel_name (hd messages))) =
              Some (Json (filter (\<lambda>m. date_key now m = d) messages)))
       \<and> scraped_dates (save_messages_by_date now messages s) = scraped_dates s \<union> {d1, d2}"
proof -
  from assms(1) have ne: "messages \<noteq> []" by auto
  have p: "partitions (save_messages_by_date now messages s) (d, c) =
            (if c = safe_channel_name (channel_name (hd messages)) \<and> (d = d1 \<or> d = d2)
             then Some (Json (merge_messages (fst (load_existing_data (d, c) s))
                                (filter (\<lambda>m. date_key now m = d) messages)))
             else partitions s (d, c))" for d c
    unfolding save_messages_by_date_partitions assms(1) using ne by simp
  have "partitions (save_messages_by_date now messages s)
                (d, safe_channel_name (channel_name (hd messages))) =
              Some (Json (filter (\<lambda>m. date_key now m = d) messages))"
    if "(d = d1 \<or> d = d2) \<and> partitions s (d, safe_channel_name (channel_name (hd messages))) = None" for d
    using that by (simp add: p existing_data_partitions merge_messages_def)
  moreover have "scraped_dates (save_messages_by_date now messages s) = scraped_dates s \<union> {d1, d2}"
    unfolding save_messages_by_date_scraped_dates assms(1) ..
  ultimately show ?thesis using p by blast
qed

theorem two_dates_two_partition_files_witness:
  "set (map (date_key jan18) [msg_a, msg_c, msg_b, msg_d]) = {(2026, 1, 17), (2026, 1, 18)}
   \<and> (2026, 1, 17) \<noteq> ((2026, 1, 18) :: date_str)
   \<and> partitions (scraper_with_files Map.empty) jan17_file = None
   \<and> partitions (scraper_with_files Map.empty) jan18_file = None
   \<and> partitions (save_messages_by_date jan18 [msg_a, msg_c, msg_b, msg_d] (scraper_with_files Map.empty))
        jan17_file = Some (Json [msg_a, msg_b])
   \<and> partitions (save_messages_by_date jan18 [msg_a, msg_c, msg_b, msg_d] (scraper_with_files Map.empty))
        jan18_file = Some (Json [msg_c, msg_d])
   \<and> scraped_dates (save_messages_by_date jan18 [msg_a, msg_c, msg_b, msg_d] (scraper_with_files Map.empty))
        = {} \<union> {(2026, 1, 17), (2026, 1, 18)}"
proof -
  have k: "date_key jan18 msg_a = (2026, 1, 17)" "date_key jan18 msg_b = (2026, 1, 17)"
    "date_key jan18 msg_c = (2026, 1, 18)" "date_key jan18 msg_d = (2026, 1, 18)"
    by code_simp+
  have h1: "set (map (date_key jan18) [msg_a, msg_c, msg_b, msg_d]) = {(2026, 1, 17), (2026, 1, 18)}"
    by (auto simp: k)
  have h2: "(2026, 1, 17) \<noteq> ((2026, 1, 18) :: date_str)" by simp
  have c: "safe_channel_name (channel_name (hd [msg_a, msg_c, msg_b, msg_d])) = ''CheMed123''"
    by code_simp
  have n: "partitions (scraper_with_files Map.empty) ((2026, 1, 17), ''CheMed123'') = None"
    "partitions (scraper_with_files Map.empty) ((2026, 1, 18), ''CheMed123'') = None"
    by (simp_all add: scraper_with_files_def new_scraper_def)
  have f: "filter (\<lambda>m. date_key jan18 m = (2026, 1, 17)) [msg_a, msg_c, msg_b, msg_d] = [msg_a, msg_b]"
    "filter (\<lambda>m. date_key jan18 m = (2026, 1, 18)) [msg_a, msg_c, msg_b, msg_d] = [msg_c, msg_d]"
    by (simp_all add: k)
  have sd: "scraped_dates (scraper_with_files Map.empty) = {}"
    by (simp add: scraper_with_files_def new_scraper_def)
  note t = two_dates_two_partition_files [OF h1 h2, of "scraper_with_files Map.empty", unfolded c]
  note a = t [THEN conjunct2, THEN conjunct1, rule_format, of "(2026, 1, 17)", OF conjI [OF disjI1 [OF refl] n(1)], unfolded f]
  note b = t [THEN conjunct2, THEN conjunct1, rule_format, of "(2026, 1, 18)", OF conjI [OF disjI2 [OF refl] n(2)], unfolded f]
  note d = t [THEN conjunct2, THEN conjunct2, unfolded sd]
  show ?thesis
    unfolding jan17_file_def jan18_file_def
    by (intro conjI h1 h2 n a b d)
qed

lemma saved_by_date_contains:
  assumes "md \<in> set batch"
  shows "\<exists>stored.
           partitions (save_messages_by_date now batch t)
             (date_key now md, safe_channel_name (channel_name (hd batch))) = Some (Json stored)
         \<and> message_id md \<in> set (map message_id stored)
         \<and> (message_id md \<notin> set (map message_id
                 (fst (load_existing_data (date_key now md, safe_channel_name (channel_name (hd batch))) t))) \<longrightarrow>
              md \<in> set stored)"
proof -
  let ?key = "(date_key now md, safe_channel_name (channel_name (hd batch)))"
  let ?existing = "fst (load_existing_data ?key t)"
  let ?group = "filter (\<lambda>m. date_key now m = date_key now md) batch"
  from assms have ne: "batch \<noteq> []" and g: "md \<in> set ?group"
    by auto
  from assms ne have p: "partitions (save_messages_by_date now batch t) ?key =
      Some (Json (merge_messages ?existing ?group))"
    by (simp add: save_messages_by_date_partitions)
  from g have "message_id md \<in> set (map message_id ?group)"
    by (simp only: set_map) (rule imageI)
  then have i: "message_id md \<in> set (map message_id (merge_messages ?existing ?group))"
    unfolding merge_ids by simp
  have "md \<in> set (merge_messages ?existing ?group)"
    if "message_id md \<notin> set (map message_id ?existing)"
    using that g by (simp add: merge_messages_def)
  with p i show ?thesis by blast
qed

section \<open>Text survives the image limit\<close>

text \<open>
  C3. A message with a photo that is processed while the counter of its channel has
  reached the quota is extracted, with \<open>has_media\<close> true and \<open>image_path\<close> set, and
  appended to the result; \<open>download_image\<close> returns \<open>False\<close>, requests nothing and
  writes no file. Flushed with its batch, a record with its id is in the partition file
  of its date, and it is this record unless one with the same id was stored before. A
  whole iteration under a reached quota keeps the record of every message and leaves
  the image directories as they are.
\<close>

theorem text_survives_image_limit:
  assumes photo: "raw_media msg = MessageMediaPhoto"
    and quota: "get_max_images_for_channel (channel_max_images s) (default_max_images s) chan = Inr max_images"
    and exhausted: "max_images \<le> count_of s (get_config_channel_name (channel_max_images s) chan)"
  shows "extract_message_data now msg chan \<noteq> None
     \<and> (\<forall>md. extract_message_data now msg chan = Some md \<longrightarrow>
            has_media md
          \<and> image_path md = Some (''data/raw/images/'' @ chan @ ''/'' @ image_file_name (raw_id msg))
          \<and> process_message cl now chan msg (messages, s) =
              (None, messages @ [md],
               sleep PacingDelay (snd (download_image cl msg chan (message_id md) s)))
          \<and> \<not> fst (download_image cl msg chan (message_id md) s)
          \<and> image_dirs (snd (download_image cl msg chan (message_id md) s)) = image_dirs s
          \<and> media_requests (snd (download_image cl msg chan (message_id md) s)) = media_requests s
          \<and> (\<forall>batch t. md \<in> set batch \<longrightarrow>
                (\<exists>stored.
                    partitions (save_messages_by_date now batch t)
                      (date_key now md, safe_channel_name (channel_name (hd batch))) = Some (Json stored)
                  \<and> message_id md \<in> set (map message_id stored)
                  \<and> (message_id md \<notin> set (map message_id
                         (fst (load_existing_data
                                 (date_key now md, safe_channel_name (channel_name (hd batch))) t))) \<longrightarrow>
                       md \<in> set stored))))
     \<and> (\<forall>raws.
            fst (iterate_messages cl now chan (map Yield raws) (messages, s)) = None
          \<and> fst (snd (iterate_messages cl now chan (map Yield raws) (messages, s))) =
              messages @ List.map_filter (\<lambda>m. extract_message_data now m chan) raws
          \<and> image_dirs (snd (snd (iterate_messages cl now chan (map Yield raws) (messages, s)))) = image_dirs s
          \<and> media_requests (snd (snd (iterate_messages cl now chan (map Yield raws) (messages, s)))) =
              media_requests s)"
proof (intro conjI allI impI)
  show "extract_message_data now msg chan \<noteq> None"
    by (simp add: extract_message_data_def)
next
  fix md
  assume md: "extract_message_data now msg chan = Some md"
  then have i: "message_id md = raw_id msg"
    by (auto simp: extract_message_data_def)
  from md photo show "has_media md"
    by (auto simp: extract_message_data_def)
  from md photo show "image_path md = Some (''data/raw/images/'' @ chan @ ''/'' @ image_file_name (raw_id msg))"
    by (auto simp: extract_message_data_def)
  show "process_message cl now chan msg (messages, s) =
              (None, messages @ [md],
               sleep PacingDelay (snd (download_image cl msg chan (message_id md) s)))"
    unfolding process_message_eq [OF md] i using photo by simp
  show "\<not> fst (download_image cl msg chan (message_id md) s)"
    using download_image_exhausted(1) [OF photo quota exhausted] by simp
  show "image_dirs (snd (download_image cl msg chan (message_id md) s)) = image_dirs s"
    by (rule download_image_exhausted(2) [OF photo quota exhausted])
  show "media_requests (snd (download_image cl msg chan (message_id md) s)) = media_requests s"
    by (rule download_image_exhausted(3) [OF photo quota exhausted])
  fix batch :: "message list" and t :: scraper
  assume "md \<in> set batch"
  then show "\<exists>stored.
                    partitions (save_messages_by_date now batch t)
                      (date_key now md, safe_channel_name (channel_name (hd batch))) = Some (Json stored)
                  \<and> message_id md \<in> set (map message_id stored)
                  \<and> (message_id md \<notin> set (map message_id
                         (fst (load_existing_data
                                 (date_key now md, safe_channel_name (channel_name (hd batch))) t))) \<longrightarrow>
                       md \<in> set stored)"
    by (rule saved_by_date_contains)
next
  fix raws
  show "fst (iterate_messages cl now chan (map Yield raws) (messages, s)) = None"
    using iterate_messages_yields by blast
  show "fst (snd (iterate_messages cl now chan (map Yield raws) (messages, s))) =
              messages @ List.map_filter (\<lambda>m. extract_message_data now m chan) raws"
    using iterate_messages_yields by blast
  show "image_dirs (snd (snd (iterate_messages cl now chan (map Yield raws) (messages, s)))) = image_dirs s"
    using iterate_messages_exhausted [OF quota exhausted] by blast
  show "media_requests (snd (snd (iterate_messages cl now chan (map Yield raws) (messages, s)))) =
              media_requests s"
    using iterate_messages_exhausted [OF quota exhausted] by blast
qed


theorem text_survives_image_limit_witness:
  "raw_media (photo_message 3 jan17) = MessageMediaPhoto
   \<and> get_max_images_for_channel (channel_max_images quota_reached) (default_max_images quota_reached)
        ''CheMed123'' = Inr 2
   \<and> 2 \<le> count_of quota_reached (get_config_channel_name (channel_max_images quota_reached) ''CheMed123'')
   \<and> extract_message_data jan18 (photo_message 3 jan17) ''CheMed123'' = Some (record_of (photo_message 3 jan17))
   \<and> has_media (record_of (photo_message 3 jan17))
   \<and> image_path (record_of (photo_message 3 jan17)) =
        Some (''data/raw/images/'' @ ''CheMed123'' @ ''/'' @ image_file_name (raw_id (photo_message 3 jan17)))
   \<and> \<not> fst (download_image (Some (provider [])) (photo_message 3 jan17) ''CheMed123''
              (message_id (record_of (photo_message 3 jan17))) quota_reached)
   \<and> record_of (photo_message 3 jan17) \<in> set [record_of (photo_message 3 jan17)]
   \<and> (\<exists>stored.
          partitions (save_messages_by_date jan18 [record_of (photo_message 3 jan17)] quota_reached)
            (date_key jan18 (record_of (photo_message 3 jan17)),
             safe_channel_name (channel_name (hd [record_of (photo_message 3 jan17)]))) = Some (Json stored)
        \<and> message_id (record_of (photo_message 3 jan17)) \<in> set (map message_id stored))
   \<and> fst (snd (iterate_messages (Some (provider [])) jan18 ''CheMed123''
                (map Yield [photo_message 3 jan17, text_message 4 jan17]) ([], quota_reached))) =
        [] @ List.map_filter (\<lambda>m. extract_message_data jan18 m ''CheMed123'')
               [photo_message 3 jan17, text_message 4 jan17]
   \<and> image_dirs (snd (snd (iterate_messages (Some (provider [])) jan18 ''CheMed123''
                (map Yield [photo_message 3 jan17, text_message 4 jan17]) ([], quota_reached)))) =
        image_dirs quota_reached"
proof -
  have p: "raw_media (photo_message 3 jan17) = MessageMediaPhoto"
    by (simp add: photo_message_def)
  have q: "get_max_images_for_channel (channel_max_images quota_reached) (default_max_images quota_reached)
        ''CheMed123'' = Inr 2"
    by code_simp
  have e: "2 \<le> count_of quota_reached (get_config_channel_name (channel_max_images quota_reached) ''CheMed123'')"
    by code_simp
  have x: "extract_message_data jan18 (photo_message 3 jan17) ''CheMed123'' = Some (record_of (photo_message 3 jan17))"
    by (simp add: record_of_def extract_message_data_def)
  have m: "record_of (photo_message 3 jan17) \<in> set [record_of (photo_message 3 jan17)]"
    by simp
  note t = text_survives_image_limit [OF p q e, where now = jan18 and cl = "Some (provider [])"
      and messages = "[]"]
  note r = t [THEN conjunct2, THEN conjunct1, rule_format, OF x]
  note h = r [THEN conjunct1]
  note i = r [THEN conjunct2, THEN conjunct1]
  note d = r [THEN conjunct2, THEN conjunct2, THEN conjunct2, THEN conjunct1]
  note s = r [THEN conjunct2, THEN conjunct2, THEN conjunct2, THEN conjunct2, THEN conjunct2, THEN conjunct2,
      rule_format, OF m, of quota_reached]
  from s have s': "\<exists>stored.
          partitions (save_messages_by_date jan18 [record_of (photo_message 3 jan17)] quota_reached)
            (date_key jan18 (record_of (photo_message 3 jan17)),
             safe_channel_name (channel_name (hd [record_of (photo_message 3 jan17)]))) = Some (Json stored)
        \<and> message_id (record_of (photo_message 3 jan17)) \<in> set (map message_id stored)"
    by (elim exE conjE) (intro exI conjI)
  note l = t [THEN conjunct2, THEN conjunct2, rule_format, of "[photo_message 3 jan17, text_message 4 jan17]"]
  show ?thesis
    by (intro conjI p q e x h i d m s' l [THEN conjunct2, THEN conjunct1]
          l [THEN conjunct2, THEN conjunct2, THEN conjunct1])
qed

end
